theory Spec2Isabelle
  imports Main
begin

section \<open>JavaScript values, errors and JSON\<close>

text \<open>
  Strings are lists of 8-bit code units. The wire format's markers, separators, JSON
  punctuation and line terminator are all ASCII, where \<open>TextEncoder\<close> and
  \<open>TextDecoder\<close> are the identity, so an outgoing byte stream is modelled as the string
  that was encoded. A thrown JavaScript exception is a value of type \<open>error\<close>; a function
  that may throw returns \<open>error + 'a\<close> with \<open>Inl\<close> for the exception.
\<close>

datatype error = Error string | TypeError string | SyntaxError string

datatype json =
    JNull
  | JBool bool
  | JNum int
  | JStr string
  | JArr "json list"
  | JObj "(string \<times> json) list"

definition dq :: char where
  "dq = CHR 0x22"

definition bslash :: char where
  "bslash = CHR 0x5C"

definition newline :: char where
  "newline = CHR 0x0A"

definition digit_char :: "nat \<Rightarrow> char" where
  "digit_char n = ''0123456789abcdef'' ! (n mod 16)"

fun dec_nat :: "nat \<Rightarrow> string" where
  "dec_nat n = (if n < 10 then [digit_char n] else dec_nat (n div 10) @ [digit_char (n mod 10)])"

declare dec_nat.simps [simp del]

text \<open>\<open>Number.prototype.toString\<close> and \<open>JSON.stringify\<close> on an integer.\<close>

definition dec_int :: "int \<Rightarrow> string" where
  "dec_int i = (if i < 0 then CHR ''-'' # dec_nat (nat (- i)) else dec_nat (nat i))"

text \<open>
  \<open>JSON.stringify\<close> on a string (ECMAScript QuoteJSONString): the quote and the backslash
  are escaped, the control characters below 0x20 are written with their short escape or
  as \<open>\u00XX\<close>, every other code unit is copied.
\<close>

definition escape_char :: "char \<Rightarrow> string" where
  "escape_char c =
     (if c = dq then [bslash, dq]
      else if c = bslash then [bslash, bslash]
      else if c = CHR 0x08 then [bslash, CHR ''b'']
      else if c = CHR 0x0C then [bslash, CHR ''f'']
      else if c = CHR 0x0A then [bslash, CHR ''n'']
      else if c = CHR 0x0D then [bslash, CHR ''r'']
      else if c = CHR 0x09 then [bslash, CHR ''t'']
      else if (of_char c :: nat) < 32
        then [bslash, CHR ''u'', CHR ''0'', CHR ''0'',
              digit_char ((of_char c :: nat) div 16), digit_char ((of_char c :: nat) mod 16)]
      else [c])"

definition quote_json :: "string \<Rightarrow> string" where
  "quote_json s = dq # concat (map escape_char s) @ [dq]"

fun join_with :: "string \<Rightarrow> string list \<Rightarrow> string" where
  "join_with sep [] = []"
| "join_with sep [x] = x"
| "join_with sep (x # y # ys) = x @ sep @ join_with sep (y # ys)"

fun stringify :: "json \<Rightarrow> string"
  and stringify_elems :: "json list \<Rightarrow> string list"
  and stringify_members :: "(string \<times> json) list \<Rightarrow> string list" where
  "stringify JNull = ''null''"
| "stringify (JBool b) = (if b then ''true'' else ''false'')"
| "stringify (JNum i) = dec_int i"
| "stringify (JStr s) = quote_json s"
| "stringify (JArr xs) = ''['' @ join_with '','' (stringify_elems xs) @ '']''"
| "stringify (JObj ms) = ''{'' @ join_with '','' (stringify_members ms) @ ''}''"
| "stringify_elems [] = []"
| "stringify_elems (x # xs) = stringify x # stringify_elems xs"
| "stringify_members [] = []"
| "stringify_members (m # ms) =
     (quote_json (fst m) @ '':'' @ stringify (snd m)) # stringify_members ms"

text \<open>Truthiness of an optional string: \<open>undefined\<close>, \<open>null\<close> and the empty string are falsy.\<close>

definition given :: "string option \<Rightarrow> bool" where
  "given x = (case x of None \<Rightarrow> False | Some s \<Rightarrow> s \<noteq> [])"

subsection \<open>\<open>JSON.parse\<close>\<close>

text \<open>
  A recursive-descent reader of the JSON grammar. The recursion is on a fuel argument that
  every nested call decreases by one. \<open>JSON_parse\<close> supplies one unit more than the length
  of the text: a level of nesting costs two units and at least two characters (its
  brackets), a further element or member costs one unit and at least two characters.
  Numbers are the integers of the grammar (a fraction or an exponent is rejected) and a
  \<open>\uXXXX\<close> escape is read when it names a code unit below 0x100: the frames of this program
  carry token counts and text only.
\<close>

definition is_ws :: "char \<Rightarrow> bool" where
  "is_ws c = (c = CHR '' '' \<or> c = CHR 0x09 \<or> c = CHR 0x0A \<or> c = CHR 0x0D)"

fun skip_ws :: "string \<Rightarrow> string" where
  "skip_ws [] = []"
| "skip_ws (c # cs) = (if is_ws c then skip_ws cs else c # cs)"

definition is_digit :: "char \<Rightarrow> bool" where
  "is_digit c = (48 \<le> (of_char c :: nat) \<and> (of_char c :: nat) \<le> 57)"

definition digit_val :: "char \<Rightarrow> nat" where
  "digit_val c = (of_char c :: nat) - 48"

definition hex_val :: "char \<Rightarrow> nat option" where
  "hex_val c =
     (let n = (of_char c :: nat) in
      if 48 \<le> n \<and> n \<le> 57 then Some (n - 48)
      else if 65 \<le> n \<and> n \<le> 70 then Some (n - 55)
      else if 97 \<le> n \<and> n \<le> 102 then Some (n - 87)
      else None)"

definition unescape :: "char \<Rightarrow> char option" where
  "unescape e =
     (if e = dq then Some dq
      else if e = bslash then Some bslash
      else if e = CHR ''/'' then Some (CHR ''/'')
      else if e = CHR ''b'' then Some (CHR 0x08)
      else if e = CHR ''f'' then Some (CHR 0x0C)
      else if e = CHR ''n'' then Some (CHR 0x0A)
      else if e = CHR ''r'' then Some (CHR 0x0D)
      else if e = CHR ''t'' then Some (CHR 0x09)
      else None)"

definition unicode_escape :: "string \<Rightarrow> char option" where
  "unicode_escape hs =
     (case map hex_val hs of
        [Some a, Some b, Some c, Some d] \<Rightarrow>
          if a = 0 \<and> b = 0 then Some (char_of (c * 16 + d)) else None
      | _ \<Rightarrow> None)"

text \<open>The characters after an opening quote, up to and including the closing quote.\<close>

fun parse_chars :: "string \<Rightarrow> (string \<times> string) option" where
  "parse_chars [] = None"
| "parse_chars (c # cs) =
     (if c = dq then Some ([], cs)
      else if c = bslash then
        (case cs of
           [] \<Rightarrow> None
         | e # r \<Rightarrow>
             if e = CHR ''u'' then
               (case unicode_escape (take 4 r) of
                  None \<Rightarrow> None
                | Some ch \<Rightarrow>
                    (case parse_chars (drop 4 r) of
                       None \<Rightarrow> None
                     | Some (s, rest) \<Rightarrow> Some (ch # s, rest)))
             else
               (case unescape e of
                  None \<Rightarrow> None
                | Some ch \<Rightarrow>
                    (case parse_chars r of
                       None \<Rightarrow> None
                     | Some (s, rest) \<Rightarrow> Some (ch # s, rest))))
      else if (of_char c :: nat) < 32 then None
      else
        (case parse_chars cs of
           None \<Rightarrow> None
         | Some (s, rest) \<Rightarrow> Some (c # s, rest)))"

fun parse_digits :: "nat \<Rightarrow> string \<Rightarrow> nat \<times> string" where
  "parse_digits acc [] = (acc, [])"
| "parse_digits acc (c # cs) =
     (if is_digit c then parse_digits (acc * 10 + digit_val c) cs else (acc, c # cs))"

definition parse_nat :: "string \<Rightarrow> (nat \<times> string) option" where
  "parse_nat s =
     (case s of
        [] \<Rightarrow> None
      | c # cs \<Rightarrow>
          if c = CHR ''0'' then Some (0, cs)
          else if is_digit c then Some (parse_digits (digit_val c) cs)
          else None)"

definition number_ends :: "string \<Rightarrow> bool" where
  "number_ends s =
     (case s of [] \<Rightarrow> True
      | c # _ \<Rightarrow> \<not> (is_digit c \<or> c = CHR ''.'' \<or> c = CHR ''e'' \<or> c = CHR ''E''))"

definition parse_number :: "string \<Rightarrow> (json \<times> string) option" where
  "parse_number s =
     (case s of
        [] \<Rightarrow> None
      | c # cs \<Rightarrow>
          (case parse_nat (if c = CHR ''-'' then cs else s) of
             None \<Rightarrow> None
           | Some (n, rest) \<Rightarrow>
               if number_ends rest
               then Some (JNum (if c = CHR ''-'' then - int n else int n), rest)
               else None))"

definition starts_with :: "string \<Rightarrow> string \<Rightarrow> bool" where
  "starts_with p s = (take (length p) s = p)"

fun parse_value :: "nat \<Rightarrow> string \<Rightarrow> (json \<times> string) option"
  and parse_elements :: "nat \<Rightarrow> string \<Rightarrow> (json list \<times> string) option"
  and parse_members :: "nat \<Rightarrow> string \<Rightarrow> ((string \<times> json) list \<times> string) option" where
  "parse_value 0 s = None"
| "parse_value (Suc n) s =
     (case skip_ws s of
        [] \<Rightarrow> None
      | c # cs \<Rightarrow>
          if c = CHR ''{'' then
            (case skip_ws cs of
               [] \<Rightarrow> None
             | d # r \<Rightarrow>
                 if d = CHR ''}'' then Some (JObj [], r)
                 else (case parse_members n (d # r) of
                         None \<Rightarrow> None
                       | Some (ms, rest) \<Rightarrow> Some (JObj ms, rest)))
          else if c = CHR ''['' then
            (case skip_ws cs of
               [] \<Rightarrow> None
             | d # r \<Rightarrow>
                 if d = CHR '']'' then Some (JArr [], r)
                 else (case parse_elements n (d # r) of
                         None \<Rightarrow> None
                       | Some (xs, rest) \<Rightarrow> Some (JArr xs, rest)))
          else if c = dq then
            (case parse_chars cs of
               None \<Rightarrow> None
             | Some (str, rest) \<Rightarrow> Some (JStr str, rest))
          else if starts_with ''true'' (c # cs) then Some (JBool True, drop 4 (c # cs))
          else if starts_with ''false'' (c # cs) then Some (JBool False, drop 5 (c # cs))
          else if starts_with ''null'' (c # cs) then Some (JNull, drop 4 (c # cs))
          else parse_number (c # cs))"
| "parse_elements 0 s = None"
| "parse_elements (Suc n) s =
     (case parse_value n s of
        None \<Rightarrow> None
      | Some (v, rest) \<Rightarrow>
          (case skip_ws rest of
             [] \<Rightarrow> None
           | c # cs \<Rightarrow>
               if c = CHR '']'' then Some ([v], cs)
               else if c = CHR '','' then
                 (case parse_elements n cs of
                    None \<Rightarrow> None
                  | Some (vs, rest') \<Rightarrow> Some (v # vs, rest'))
               else None))"
| "parse_members 0 s = None"
| "parse_members (Suc n) s =
     (case skip_ws s of
        [] \<Rightarrow> None
      | c # cs \<Rightarrow>
          if c \<noteq> dq then None
          else
            (case parse_chars cs of
               None \<Rightarrow> None
             | Some (k, rest) \<Rightarrow>
                 (case skip_ws rest of
                    [] \<Rightarrow> None
                  | d # r \<Rightarrow>
                      if d \<noteq> CHR '':'' then None
                      else
                        (case parse_value n r of
                           None \<Rightarrow> None
                         | Some (v, rest') \<Rightarrow>
                             (case skip_ws rest' of
                                [] \<Rightarrow> None
                              | e # r' \<Rightarrow>
                                  if e = CHR ''}'' then Some ([(k, v)], r')
                                  else if e = CHR '','' then
                                    (case parse_members n r' of
                                       None \<Rightarrow> None
                                     | Some (ms, rest'') \<Rightarrow> Some ((k, v) # ms, rest''))
                                  else None)))))"

definition JSON_parse :: "string \<Rightarrow> error + json" where
  "JSON_parse s =
     (case parse_value (Suc (length s)) s of
        None \<Rightarrow> Inl (SyntaxError ''Unexpected token in JSON'')
      | Some (v, rest) \<Rightarrow>
          if skip_ws rest = [] then Inr v
          else Inl (SyntaxError ''Unexpected token in JSON''))"

section \<open>Wire frames\<close>

text \<open>
  The two template literals of the route handlers: a text fragment is sent as the line
  \<open>0:<json-text>\<close>, the usage summary as the line \<open>2:<json-object>\<close>. The object carries
  the key \<open>threadId\<close> in the Assistants handler only.
\<close>

definition text_frame :: "string \<Rightarrow> string" where
  "text_frame t = ''0:'' @ stringify (JStr t) @ [newline]"

definition usage_object :: "int \<Rightarrow> int \<Rightarrow> string \<Rightarrow> string option \<Rightarrow> json" where
  "usage_object inputTokens outputTokens modelId thread =
     JObj ((''usage'', JObj [(''inputTokens'', JNum inputTokens),
                             (''outputTokens'', JNum outputTokens),
                             (''model'', JStr modelId)])
           # (case thread of None \<Rightarrow> [] | Some t \<Rightarrow> [(''threadId'', JStr t)]))"

definition usage_frame :: "int \<Rightarrow> int \<Rightarrow> string \<Rightarrow> string option \<Rightarrow> string" where
  "usage_frame inputTokens outputTokens modelId thread =
     ''2:'' @ stringify (usage_object inputTokens outputTokens modelId thread) @ [newline]"

section \<open>Upstream vendor streams and the outgoing stream\<close>

text \<open>
  An upstream stream, as the \<open>for await\<close> loops see it: the events it yields, and the
  exception that ends it when it does not complete. The outgoing \<open>ReadableStream\<close> is the
  list of chunks given to \<open>controller.enqueue\<close>, and how it ended: \<open>controller.close()\<close>
  or \<open>controller.error(e)\<close>.
\<close>

record 'a upstream =
  events :: "'a list"
  failure :: "error option"

datatype stream_end = Closed | Errored error

type_synonym out_stream = "string list \<times> stream_end"

text \<open>\<open>x || 0\<close> on a token count that may be missing.\<close>

definition or0 :: "int option \<Rightarrow> int" where
  "or0 x = (case x of None \<Rightarrow> 0 | Some n \<Rightarrow> n)"

subsection \<open>Gemini\<close>

record gemini_usage =
  promptTokenCount :: "int option"
  candidatesTokenCount :: "int option"

record gemini_chunk =
  chunk_text :: string
  usageMetadata :: "gemini_usage option"

type_synonym pump = "string list \<times> int \<times> int"

fun gemini_step :: "pump \<Rightarrow> gemini_chunk \<Rightarrow> pump" where
  "gemini_step (out, totalInputTokens, totalOutputTokens) chunk =
     (let out' = (if chunk_text chunk \<noteq> [] then out @ [text_frame (chunk_text chunk)] else out)
      in case usageMetadata chunk of
           None \<Rightarrow> (out', totalInputTokens, totalOutputTokens)
         | Some usage \<Rightarrow> (out', or0 (promptTokenCount usage), or0 (candidatesTokenCount usage)))"

definition finish_stream :: "pump \<Rightarrow> string \<Rightarrow> string option \<Rightarrow> error option \<Rightarrow> out_stream" where
  "finish_stream p modelId thread fail =
     (case p of (out, totalInputTokens, totalOutputTokens) \<Rightarrow>
        (case fail of
           None \<Rightarrow> (out @ [usage_frame totalInputTokens totalOutputTokens modelId thread], Closed)
         | Some e \<Rightarrow> (out, Errored e)))"

definition gemini_stream :: "string \<Rightarrow> gemini_chunk upstream \<Rightarrow> out_stream" where
  "gemini_stream modelId up =
     finish_stream (foldl gemini_step ([], 0, 0) (events up)) modelId None (failure up)"

subsection \<open>OpenAI Assistants run\<close>

record openai_usage =
  prompt_tokens :: "int option"
  completion_tokens :: "int option"

datatype content_block =
    TextBlock "string option"
  | OtherBlock

datatype run_event =
    MessageDelta "content_block list option"
  | RunCompleted "openai_usage option"
  | OtherEvent

fun block_frames :: "content_block \<Rightarrow> string list" where
  "block_frames (TextBlock (Some v)) = (if v \<noteq> [] then [text_frame v] else [])"
| "block_frames (TextBlock None) = []"
| "block_frames OtherBlock = []"

fun run_step :: "pump \<Rightarrow> run_event \<Rightarrow> pump" where
  "run_step (out, totalInputTokens, totalOutputTokens) (MessageDelta None) =
     (out, totalInputTokens, totalOutputTokens)"
| "run_step (out, totalInputTokens, totalOutputTokens) (MessageDelta (Some blocks)) =
     (out @ concat (map block_frames blocks), totalInputTokens, totalOutputTokens)"
| "run_step (out, totalInputTokens, totalOutputTokens) (RunCompleted None) =
     (out, totalInputTokens, totalOutputTokens)"
| "run_step (out, totalInputTokens, totalOutputTokens) (RunCompleted (Some usage)) =
     (out, or0 (prompt_tokens usage), or0 (completion_tokens usage))"
| "run_step (out, totalInputTokens, totalOutputTokens) OtherEvent =
     (out, totalInputTokens, totalOutputTokens)"

definition run_stream :: "string \<Rightarrow> string \<Rightarrow> run_event upstream \<Rightarrow> out_stream" where
  "run_stream modelId currentThreadId up =
     finish_stream (foldl run_step ([], 0, 0) (events up)) modelId (Some currentThreadId)
       (failure up)"

subsection \<open>OpenAI chat completion\<close>

record completion_chunk =
  delta_content :: "string option"
  chunk_usage :: "openai_usage option"

fun completion_step :: "pump \<Rightarrow> completion_chunk \<Rightarrow> pump" where
  "completion_step (out, totalInputTokens, totalOutputTokens) chunk =
     (let out' = (case delta_content chunk of
                    None \<Rightarrow> out
                  | Some c \<Rightarrow> if c \<noteq> [] then out @ [text_frame c] else out)
      in case chunk_usage chunk of
           None \<Rightarrow> (out', totalInputTokens, totalOutputTokens)
         | Some usage \<Rightarrow> (out', or0 (prompt_tokens usage), or0 (completion_tokens usage)))"

definition completion_stream :: "string \<Rightarrow> completion_chunk upstream \<Rightarrow> out_stream" where
  "completion_stream modelId up =
     finish_stream (foldl completion_step ([], 0, 0) (events up)) modelId None (failure up)"

section \<open>Client frame decoder\<close>

text \<open>
  The read loop of \<open>ChatInterface.handleSubmit\<close>. Each delivered chunk is split on the line
  terminator and every piece is dispatched on its marker; nothing is carried over from
  one chunk to the next. The state holds the accumulated content, the calls made to
  \<open>trackUsage\<close> (an argument read from a missing property is \<open>None\<close>, JavaScript's
  \<open>undefined\<close>) and the lines logged by the two \<open>catch\<close> blocks.
\<close>

fun split_lines :: "string \<Rightarrow> string list" where
  "split_lines [] = [[]]"
| "split_lines (c # cs) =
     (if c = newline then [] # split_lines cs
      else (case split_lines cs of [] \<Rightarrow> [[c]] | l # ls \<Rightarrow> (c # l) # ls))"

text \<open>String conversion of a parsed value, as \<open>+=\<close> on a string applies it.\<close>

fun to_string :: "json \<Rightarrow> string"
  and elems_to_string :: "json list \<Rightarrow> string list" where
  "to_string JNull = ''null''"
| "to_string (JBool b) = (if b then ''true'' else ''false'')"
| "to_string (JNum i) = dec_int i"
| "to_string (JStr s) = s"
| "to_string (JArr xs) = join_with '','' (elems_to_string xs)"
| "to_string (JObj ms) = ''[object Object]''"
| "elems_to_string [] = []"
| "elems_to_string (x # xs) = (if x = JNull then [] else to_string x) # elems_to_string xs"

text \<open>Property read \<open>v.k\<close>: throws on \<open>null\<close>, is \<open>undefined\<close> where \<open>v\<close> has no such key.\<close>

definition get_property :: "json \<Rightarrow> string \<Rightarrow> error + json option" where
  "get_property v k =
     (case v of
        JNull \<Rightarrow> Inl (TypeError ''Cannot read properties of null'')
      | JObj ms \<Rightarrow> Inr (map_of (rev ms) k)
      | _ \<Rightarrow> Inr None)"

definition field :: "json \<Rightarrow> string \<Rightarrow> json option" where
  "field v k = (case v of JObj ms \<Rightarrow> map_of (rev ms) k | _ \<Rightarrow> None)"

fun truthy :: "json option \<Rightarrow> bool" where
  "truthy None = False"
| "truthy (Some JNull) = False"
| "truthy (Some (JBool b)) = b"
| "truthy (Some (JNum i)) = (i \<noteq> 0)"
| "truthy (Some (JStr s)) = (s \<noteq> [])"
| "truthy (Some (JArr xs)) = True"
| "truthy (Some (JObj ms)) = True"

record decoder =
  assistantContent :: string
  tracked :: "(json option \<times> json option \<times> json option) list"
  logged :: "string list"

definition process_line :: "decoder \<Rightarrow> string \<Rightarrow> decoder" where
  "process_line d line =
     (if starts_with ''0:'' line then
        (case JSON_parse (drop 2 line) of
           Inr t \<Rightarrow> d\<lparr>assistantContent := assistantContent d @ to_string t\<rparr>
         | Inl e \<Rightarrow> d\<lparr>logged := logged d @ [''Parse error on line: '' @ line]\<rparr>)
      else if starts_with ''2:'' line then
        (case JSON_parse (drop 2 line) of
           Inl e \<Rightarrow> d\<lparr>logged := logged d @ [''Usage parse error: '' @ line]\<rparr>
         | Inr meta \<Rightarrow>
             (case get_property meta ''usage'' of
                Inl e \<Rightarrow> d\<lparr>logged := logged d @ [''Usage parse error: '' @ line]\<rparr>
              | Inr u \<Rightarrow>
                  (case u of
                     None \<Rightarrow> d
                   | Some usage \<Rightarrow>
                       if truthy u
                       then d\<lparr>tracked := tracked d @
                                 [(field usage ''inputTokens'', field usage ''outputTokens'',
                                   field usage ''model'')]\<rparr>
                       else d)))
      else d)"

definition process_chunk :: "decoder \<Rightarrow> string \<Rightarrow> decoder" where
  "process_chunk d chunk = foldl process_line d (split_lines chunk)"

definition decoder_init :: decoder where
  "decoder_init = \<lparr>assistantContent = [], tracked = [], logged = []\<rparr>"

definition decode_stream :: "string list \<Rightarrow> decoder" where
  "decode_stream chunks = foldl process_chunk decoder_init chunks"

section \<open>OpenAI resource lifecycle\<close>

text \<open>
  \<open>getOrCreateAssistant\<close> is called several times against the same vendor account, so here
  the vendor is a state: the assistants and vector stores it holds, a counter from which
  it mints identifiers, the endpoints that are currently failing, and the journal of the
  requests it received. Retrieval and update of an identifier it does not hold are
  rejected; any request to a failing endpoint is rejected.
\<close>

record assistant =
  assistant_id :: string
  assistant_name :: string
  instructions :: string
  assistant_model :: string
  tools :: "string list"
  vector_store_ids :: "string list option"

datatype endpoint = AssistantsRetrieve | AssistantsCreate | AssistantsUpdate | VectorStoresCreate

datatype request =
    Retrieve string
  | CreateVectorStore string
  | CreateAssistant string string string "string list" "string list"
  | UpdateAssistant string "string list"

record openai =
  assistants :: "(string \<times> assistant) list"
  vector_stores :: "(string \<times> string) list"
  minted :: nat
  failing :: "endpoint \<Rightarrow> bool"
  journal :: "request list"

definition beta_assistants_retrieve :: "string \<Rightarrow> openai \<Rightarrow> (error + assistant) \<times> openai" where
  "beta_assistants_retrieve ident v =
     (let v' = v\<lparr>journal := journal v @ [Retrieve ident]\<rparr>
      in if failing v AssistantsRetrieve then (Inl (Error ''Connection error.''), v')
         else (case map_of (assistants v) ident of
                 None \<Rightarrow> (Inl (Error ''404 No assistant found''), v')
               | Some a \<Rightarrow> (Inr a, v')))"

definition beta_vectorStores_create :: "string \<Rightarrow> openai \<Rightarrow> (error + string) \<times> openai" where
  "beta_vectorStores_create name v =
     (let v' = v\<lparr>journal := journal v @ [CreateVectorStore name]\<rparr>
      in if failing v VectorStoresCreate then (Inl (Error ''Connection error.''), v')
         else
           (let ident = ''vs_'' @ dec_nat (minted v)
            in (Inr ident,
                v'\<lparr>vector_stores := (ident, name) # vector_stores v,
                    minted := Suc (minted v)\<rparr>)))"

definition beta_assistants_create ::
  "string \<Rightarrow> string \<Rightarrow> string \<Rightarrow> string list \<Rightarrow> string list \<Rightarrow> openai
     \<Rightarrow> (error + assistant) \<times> openai" where
  "beta_assistants_create name instr mdl tls vs_ids v =
     (let v' = v\<lparr>journal := journal v @ [CreateAssistant name instr mdl tls vs_ids]\<rparr>
      in if failing v AssistantsCreate then (Inl (Error ''Connection error.''), v')
         else
           (let ident = ''asst_'' @ dec_nat (minted v);
                a = \<lparr>assistant_id = ident, assistant_name = name, instructions = instr,
                     assistant_model = mdl, tools = tls, vector_store_ids = Some vs_ids\<rparr>
            in (Inr a,
                v'\<lparr>assistants := (ident, a) # assistants v, minted := Suc (minted v)\<rparr>)))"

definition beta_assistants_update ::
  "string \<Rightarrow> string list \<Rightarrow> openai \<Rightarrow> (error + assistant) \<times> openai" where
  "beta_assistants_update ident vs_ids v =
     (let v' = v\<lparr>journal := journal v @ [UpdateAssistant ident vs_ids]\<rparr>
      in if failing v AssistantsUpdate then (Inl (Error ''Connection error.''), v')
         else (case map_of (assistants v) ident of
                 None \<Rightarrow> (Inl (Error ''404 No assistant found''), v')
               | Some a \<Rightarrow>
                   (let a' = a\<lparr>vector_store_ids := Some vs_ids\<rparr>
                    in (Inr a', v'\<lparr>assistants := (ident, a') # assistants v\<rparr>))))"

definition ASSISTANT_NAME :: string where
  "ASSISTANT_NAME = ''Editorial RAG Assistant''"

definition ASSISTANT_INSTRUCTIONS :: string where
  "ASSISTANT_INSTRUCTIONS =
     ''You are a helpful expert editorial assistant. '' @ [newline, newline]
     @ ''IMPORTANT RULES:'' @ [newline]
     @ ''1. Use the provided documents to answer questions accurately'' @ [newline]
     @ ''2. ALWAYS cite your sources using the format: [Source: document_name]'' @ [newline]
     @ ''3. If information comes from multiple documents, cite all relevant sources'' @ [newline]
     @ ''4. If you cannot find information in the documents, clearly state that'' @ [newline]
     @ ''5. Match the company's style and tone based on the documents''"

definition ensureVectorStore :: "string \<Rightarrow> openai \<Rightarrow> (error + string) \<times> openai" where
  "ensureVectorStore assistantId v =
     (case beta_assistants_retrieve assistantId v of
        (Inl e, v1) \<Rightarrow> (Inl e, v1)
      | (Inr a, v1) \<Rightarrow>
          (case vector_store_ids a of
             Some (first # others) \<Rightarrow> (Inr first, v1)
           | _ \<Rightarrow>
               (case beta_vectorStores_create ''Editorial Knowledge Base'' v1 of
                  (Inl e, v2) \<Rightarrow> (Inl e, v2)
                | (Inr vectorStore, v2) \<Rightarrow>
                    (case beta_assistants_update assistantId [vectorStore] v2 of
                       (Inl e, v3) \<Rightarrow> (Inl e, v3)
                     | (Inr _, v3) \<Rightarrow> (Inr vectorStore, v3)))))"

text \<open>The part of \<open>getOrCreateAssistant\<close> after the \<open>try\<close> block: a store, then an assistant.\<close>

definition create_assistant_and_store :: "openai \<Rightarrow> (error + string \<times> string) \<times> openai" where
  "create_assistant_and_store v =
     (case beta_vectorStores_create ''Editorial Knowledge Base'' v of
        (Inl e, v1) \<Rightarrow> (Inl e, v1)
      | (Inr vectorStore, v1) \<Rightarrow>
          (case beta_assistants_create ASSISTANT_NAME ASSISTANT_INSTRUCTIONS ''gpt-4o''
                  [''file_search''] [vectorStore] v1 of
             (Inl e, v2) \<Rightarrow> (Inl e, v2)
           | (Inr a, v2) \<Rightarrow> (Inr (assistant_id a, vectorStore), v2)))"

text \<open>
  The \<open>try\<close> block spans the retrieval and \<open>ensureVectorStore\<close>; whatever either throws is
  caught, and control falls through to the creation of a new pair.
\<close>

definition getOrCreateAssistant ::
  "string option \<Rightarrow> string option \<Rightarrow> openai \<Rightarrow> (error + string \<times> string) \<times> openai" where
  "getOrCreateAssistant assistantId vectorStoreId v =
     (if given assistantId then
        (case beta_assistants_retrieve (case assistantId of Some a \<Rightarrow> a | None \<Rightarrow> []) v of
           (Inl e, v1) \<Rightarrow> create_assistant_and_store v1
         | (Inr existing, v1) \<Rightarrow>
             if given vectorStoreId
             then (Inr (assistant_id existing,
                        (case vectorStoreId of Some s \<Rightarrow> s | None \<Rightarrow> [])), v1)
             else (case ensureVectorStore (assistant_id existing) v1 of
                     (Inl e, v2) \<Rightarrow> create_assistant_and_store v2
                   | (Inr vsId, v2) \<Rightarrow> (Inr (assistant_id existing, vsId), v2)))
      else create_assistant_and_store v)"

section \<open>Ingestion\<close>

text \<open>
  The vendor's answers to one upload: to \<open>files.create\<close>, to the attachment of the file to
  the store (the attachment's identifier and first status), and to each later retrieval of
  the attachment, numbered from 0. The poll loop has no bound, so it is a partial function:
  \<open>None\<close> is the call that never returns. The one-second sleep between polls is not
  modelled.
\<close>

record ingest_vendor =
  files_create :: "string \<Rightarrow> string \<Rightarrow> string \<Rightarrow> error + string"
  vs_files_create :: "string \<Rightarrow> string \<Rightarrow> error + string \<times> string"
  vs_files_retrieve :: "string \<Rightarrow> string \<Rightarrow> nat \<Rightarrow> error + string"

partial_function (option) poll :: "(nat \<Rightarrow> error + string) \<Rightarrow> nat \<Rightarrow> string \<Rightarrow> (error + string) option" where
  "poll retrieve n status =
     (if status = ''in_progress''
      then (case retrieve n of
              Inl e \<Rightarrow> Some (Inl e)
            | Inr updated \<Rightarrow> poll retrieve (Suc n) updated)
      else Some (Inr status))"

declare poll.simps [code]

definition uploadFileToVectorStore ::
  "ingest_vendor \<Rightarrow> string \<Rightarrow> string \<Rightarrow> string \<Rightarrow> string \<Rightarrow> (error + string \<times> string) option" where
  "uploadFileToVectorStore v vectorStoreId fileBuffer fileName mimeType =
     (case files_create v fileBuffer fileName mimeType of
        Inl e \<Rightarrow> Some (Inl e)
      | Inr file \<Rightarrow>
          (case vs_files_create v vectorStoreId file of
             Inl e \<Rightarrow> Some (Inl e)
           | Inr (vectorStoreFile, first_status) \<Rightarrow>
               (case poll (vs_files_retrieve v vectorStoreId vectorStoreFile) 0 first_status of
                  None \<Rightarrow> None
                | Some (Inl e) \<Rightarrow> Some (Inl e)
                | Some (Inr status) \<Rightarrow>
                    if status \<noteq> ''completed''
                    then Some (Inl (Error (''File processing failed: '' @ status)))
                    else Some (Inr (file, vectorStoreFile)))))"

text \<open>
  The sequence of statuses the loop reads: the status of the attachment, then the
  retrievals. It settles at \<open>n\<close> with \<open>s\<close> when \<open>s\<close> is its first status other than
  \<open>in_progress\<close>, read without an exception.
\<close>

definition status_seq :: "string \<Rightarrow> (nat \<Rightarrow> error + string) \<Rightarrow> nat \<Rightarrow> error + string" where
  "status_seq first_status retrieve n = (case n of 0 \<Rightarrow> Inr first_status | Suc k \<Rightarrow> retrieve k)"

definition settles :: "(nat \<Rightarrow> error + string) \<Rightarrow> nat \<Rightarrow> string \<Rightarrow> bool" where
  "settles seq n s =
     ((\<forall>i \<in> {..<n}. seq i = Inr ''in_progress'') \<and> seq n = Inr s \<and> s \<noteq> ''in_progress'')"

section \<open>The chat route\<close>

text \<open>
  The vendors are outside the repository. For one chat request each vendor endpoint is
  called at most once, so a vendor is the record of its answers to those calls: a thrown
  exception (\<open>Inl\<close>) or the value the SDK resolves to. Every function of the route returns
  the calls it issued, in order, together with its result; \<open>Inl\<close> as the result is the
  rejected promise.
\<close>

record message =
  role :: string
  content :: string

record gemini_file =
  state :: string
  mimeType :: string
  uri :: string
  displayName :: string

datatype part = TextPart string | FileData string string

record vendor =
  listFiles :: "error + gemini_file list option"
  sendMessageStream :: "error + gemini_chunk upstream"
  threads_create :: "error + string"
  messages_create :: "error + unit"
  runs_stream :: "run_event upstream"
  completions_create :: "error + completion_chunk upstream"

datatype call =
    ListFiles
  | SendMessageStream string string "(string \<times> part list) list" string
  | ThreadsCreate
  | MessagesCreate string string string
  | RunsStream string string
  | CompletionsCreate string "(string \<times> string) list"

datatype body = JsonBody string | StreamBody "string list" stream_end

record response =
  status :: nat
  headers :: "(string \<times> string) list"
  body :: body

definition stream_response :: "out_stream \<Rightarrow> response" where
  "stream_response out =
     \<lparr>status = 200,
      headers = [(''Content-Type'', ''text/plain; charset=utf-8''),
                 (''X-Vercel-AI-Data-Stream'', ''v1'')],
      body = StreamBody (fst out) (snd out)\<rparr>"

definition undefined_content :: error where
  "undefined_content = TypeError ''Cannot read properties of undefined (reading 'content')''"

subsection \<open>Gemini handler\<close>

definition gemini_instruction :: "string \<Rightarrow> string" where
  "gemini_instruction names =
     ''You are a helpful expert editorial assistant. You have access to the following knowledge base documents: ''
     @ names @ ''.'' @ [newline, newline]
     @ ''IMPORTANT RULES:'' @ [newline]
     @ ''1. Use the provided documents to answer questions accurately'' @ [newline]
     @ ''2. ALWAYS cite your sources using the format: [Source: document_name]'' @ [newline]
     @ ''3. If information comes from multiple documents, cite all relevant sources'' @ [newline]
     @ ''4. If you cannot find information in the documents, clearly state that'' @ [newline]
     @ ''5. Match the company's style and tone based on the documents''"

definition activeFiles :: "gemini_file list \<Rightarrow> part list" where
  "activeFiles files =
     map (\<lambda>f. FileData (mimeType f) (uri f)) (filter (\<lambda>f. state f = ''ACTIVE'') files)"

definition fileNames :: "gemini_file list \<Rightarrow> string" where
  "fileNames files =
     join_with '', '' (map displayName (filter (\<lambda>f. state f = ''ACTIVE'') files))"

definition formattedHistory :: "message list \<Rightarrow> (string \<times> part list) list" where
  "formattedHistory historyMessages =
     map (\<lambda>m. (if role m = ''user'' then ''user'' else ''model'', [TextPart (content m)]))
       historyMessages"

definition chat_history :: "gemini_file list \<Rightarrow> message list \<Rightarrow> (string \<times> part list) list" where
  "chat_history files messages =
     [(''user'',
       [TextPart ''Here is the knowledge base containing all relevant documents for our session:'']
       @ activeFiles files
       @ [TextPart ''Please use these documents to answer my future questions.'']),
      (''model'',
       [TextPart ''Understood. I have processed the knowledge base and am ready to assist you.''])]
     @ formattedHistory (butlast messages)"

definition handleGemini ::
  "vendor \<Rightarrow> message list \<Rightarrow> string \<Rightarrow> string \<Rightarrow> call list \<times> (error + response)" where
  "handleGemini v messages apiKey modelId =
     (case listFiles v of
        Inl e \<Rightarrow> ([ListFiles], Inl e)
      | Inr fileList \<Rightarrow>
          let files = (case fileList of None \<Rightarrow> [] | Some fs \<Rightarrow> fs);
              systemInstruction =
                gemini_instruction (if fileNames files = [] then ''none'' else fileNames files)
          in if messages = [] then ([ListFiles], Inl undefined_content)
             else
               let sent = SendMessageStream modelId systemInstruction
                            (chat_history files messages) (content (last messages))
               in (case sendMessageStream v of
                     Inl e \<Rightarrow> ([ListFiles, sent], Inl e)
                   | Inr result \<Rightarrow>
                       ([ListFiles, sent], Inr (stream_response (gemini_stream modelId result)))))"

subsection \<open>OpenAI handlers\<close>

definition simple_instruction :: string where
  "simple_instruction =
     ''You are a helpful expert editorial assistant. '' @ [newline, newline]
     @ ''IMPORTANT RULES:'' @ [newline]
     @ ''1. Answer questions accurately and helpfully'' @ [newline]
     @ ''2. If you reference information, cite it clearly'' @ [newline]
     @ ''3. Be concise but thorough''"

definition handleOpenAISimple ::
  "vendor \<Rightarrow> message list \<Rightarrow> string \<Rightarrow> call list \<times> (error + response)" where
  "handleOpenAISimple v messages modelId =
     (let formattedMessages =
            (''system'', simple_instruction) # map (\<lambda>m. (role m, content m)) messages;
          sent = CompletionsCreate modelId formattedMessages
      in case completions_create v of
           Inl e \<Rightarrow> ([sent], Inl e)
         | Inr resp \<Rightarrow> ([sent], Inr (stream_response (completion_stream modelId resp))))"

definition handleOpenAI ::
  "vendor \<Rightarrow> message list \<Rightarrow> string \<Rightarrow> string \<Rightarrow> string option \<Rightarrow> string option
     \<Rightarrow> call list \<times> (error + response)" where
  "handleOpenAI v messages apiKey modelId assistantId threadId =
     (case assistantId of
        None \<Rightarrow> handleOpenAISimple v messages modelId
      | Some assistant \<Rightarrow>
          if assistant = [] then handleOpenAISimple v messages modelId
          else
            let created = (if given threadId then [] else [ThreadsCreate]);
                thread = (case threadId of
                            None \<Rightarrow> threads_create v
                          | Some t \<Rightarrow> if t = [] then threads_create v else Inr t)
            in (case thread of
                  Inl e \<Rightarrow> (created, Inl e)
                | Inr currentThreadId \<Rightarrow>
                    if messages = [] then (created, Inl undefined_content)
                    else
                      let appended = MessagesCreate currentThreadId ''user''
                                       (content (last messages))
                      in (case messages_create v of
                            Inl e \<Rightarrow> (created @ [appended], Inl e)
                          | Inr _ \<Rightarrow>
                              (created @ [appended, RunsStream currentThreadId assistant],
                               Inr (stream_response
                                      (run_stream modelId currentThreadId (runs_stream v)))))))"

text \<open>
  The library's generator \<open>streamAssistantResponse\<close>: it appends the message it is given,
  starts the run and yields one item per text block and one per reported usage. Its result
  is the items yielded and the exception that ended the generator, if any.
\<close>

datatype yielded = YieldText string | YieldUsage "int option" "int option"

fun block_yields :: "content_block \<Rightarrow> yielded list" where
  "block_yields (TextBlock (Some v)) = (if v \<noteq> [] then [YieldText v] else [])"
| "block_yields (TextBlock None) = []"
| "block_yields OtherBlock = []"

fun event_yields :: "run_event \<Rightarrow> yielded list" where
  "event_yields (MessageDelta None) = []"
| "event_yields (MessageDelta (Some blocks)) = concat (map block_yields blocks)"
| "event_yields (RunCompleted None) = []"
| "event_yields (RunCompleted (Some usage)) =
     [YieldUsage (prompt_tokens usage) (completion_tokens usage)]"
| "event_yields OtherEvent = []"

definition streamAssistantResponse ::
  "vendor \<Rightarrow> string \<Rightarrow> string \<Rightarrow> string \<Rightarrow> call list \<times> yielded list \<times> error option" where
  "streamAssistantResponse v assistant thread userMessage =
     (let appended = MessagesCreate thread ''user'' userMessage
      in case messages_create v of
           Inl e \<Rightarrow> ([appended], [], Some e)
         | Inr _ \<Rightarrow>
             ([appended, RunsStream thread assistant],
              concat (map event_yields (events (runs_stream v))),
              failure (runs_stream v)))"

subsection \<open>Dispatcher\<close>

record chat_request =
  messages :: "message list"
  apiKey :: "string option"
  model :: "string option"
  provider :: "string option"
  assistantId :: "string option"
  threadId :: "string option"

fun error_message :: "error \<Rightarrow> string" where
  "error_message (Error m) = m"
| "error_message (TypeError m) = m"
| "error_message (SyntaxError m) = m"

fun includes_str :: "string \<Rightarrow> string \<Rightarrow> bool" where
  "includes_str [] p = (p = [])"
| "includes_str (c # cs) p = (starts_with p (c # cs) \<or> includes_str cs p)"

definition json_response :: "nat \<Rightarrow> string \<Rightarrow> response" where
  "json_response code msg =
     \<lparr>status = code,
      headers = [(''Content-Type'', ''application/json'')],
      body = JsonBody (stringify (JObj [(''error'', JStr msg)]))\<rparr>"

definition effectiveProvider :: "chat_request \<Rightarrow> string" where
  "effectiveProvider r = (case provider r of None \<Rightarrow> ''gemini'' | Some p \<Rightarrow> p)"

definition effectiveApiKey :: "chat_request \<Rightarrow> string" where
  "effectiveApiKey r = (case apiKey r of None \<Rightarrow> [] | Some k \<Rightarrow> k)"

definition effectiveModel :: "chat_request \<Rightarrow> string" where
  "effectiveModel r =
     (if given (model r) then (case model r of Some m \<Rightarrow> m | None \<Rightarrow> [])
      else if effectiveProvider r = ''openai'' then ''gpt-4o-mini'' else ''gemini-2.5-flash'')"

text \<open>
  The argument is the outcome of \<open>await req.json()\<close>. Only that \<open>await\<close> lies inside the
  \<open>try\<close> block: the handlers' promises are returned without being awaited, so a handler's
  rejection is the rejection of \<open>POST\<close> itself and does not reach the \<open>catch\<close> branch.
\<close>

definition POST :: "vendor \<Rightarrow> error + chat_request \<Rightarrow> call list \<times> (error + response)" where
  "POST v parsed =
     (case parsed of
        Inl e \<Rightarrow>
          ([], Inr (json_response 500
                      (if includes_str (error_message e) ''API_KEY_INVALID''
                          \<or> includes_str (error_message e) ''invalid_api_key''
                       then ''Invalid API key. Please check your key in Settings.''
                       else ''Failed to generate response'')))
      | Inr r \<Rightarrow>
          if effectiveApiKey r = [] then
            ([], Inr (json_response 400
                        (''No '' @ (if effectiveProvider r = ''openai'' then ''OpenAI'' else ''Gemini'')
                         @ '' API key configured. Please add one in Settings.'')))
          else if effectiveProvider r = ''openai'' then
            handleOpenAI v (messages r) (effectiveApiKey r) (effectiveModel r)
              (assistantId r) (threadId r)
          else handleGemini v (messages r) (effectiveApiKey r) (effectiveModel r))"

section \<open>Properties of the wire format\<close>

text \<open>
  A chunk is a frame with a given marker when it starts with the marker and is one line:
  its only line terminator is its last character. A byte stream is well framed when it
  ends with a line terminator, its last line is a usage summary and every line before
  that one is a text delta.
\<close>

definition frame_of :: "string \<Rightarrow> string \<Rightarrow> bool" where
  "frame_of marker chunk =
     (starts_with marker chunk \<and> chunk \<noteq> [] \<and> last chunk = newline
      \<and> newline \<notin> set (butlast chunk))"

definition well_framed :: "string \<Rightarrow> bool" where
  "well_framed bytes =
     (case rev (split_lines bytes) of
        tail # usage # texts \<Rightarrow>
          tail = [] \<and> starts_with ''2:'' usage \<and> list_all (starts_with ''0:'') texts
      | _ \<Rightarrow> False)"

text \<open>
  The vendor stream of testable property 3: five fragments, the token counts reported
  with the last one, for the model \<open>m\<close>.
\<close>

definition property3_upstream :: "gemini_chunk upstream" where
  "property3_upstream =
     \<lparr>events =
        [\<lparr>chunk_text = ''The'', usageMetadata = None\<rparr>,
         \<lparr>chunk_text = '' '', usageMetadata = None\<rparr>,
         \<lparr>chunk_text = ''answer'', usageMetadata = None\<rparr>,
         \<lparr>chunk_text = '' is'', usageMetadata = None\<rparr>,
         \<lparr>chunk_text = '' 42.'',
          usageMetadata = Some \<lparr>promptTokenCount = Some 10, candidatesTokenCount = Some 5\<rparr>\<rparr>],
      failure = None\<rparr>"

definition property3_frames :: "string list" where
  "property3_frames = fst (gemini_stream ''m'' property3_upstream)"

definition property3_bytes :: string where
  "property3_bytes = concat property3_frames"

definition property3_decoded :: decoder where
  "property3_decoded =
     \<lparr>assistantContent = ''The answer is 42.'',
      tracked = [(Some (JNum 10), Some (JNum 5), Some (JStr ''m''))],
      logged = []\<rparr>"

text \<open>
  An offset into a byte stream lies on a line boundary when it is the start or the end of
  the stream, or when a line terminator stands immediately before or after it.
\<close>

definition on_line_boundary :: "string \<Rightarrow> nat \<Rightarrow> bool" where
  "on_line_boundary bytes k =
     (k = 0 \<or> length bytes \<le> k \<or> bytes ! (k - 1) = newline \<or> bytes ! k = newline)"

definition two_reads :: "string \<Rightarrow> nat \<Rightarrow> string list" where
  "two_reads bytes k = [take k bytes, drop k bytes]"



text \<open>Invariants of the three forwarding loops.\<close>

definition text_frames_only :: "pump \<Rightarrow> bool" where
  "text_frames_only p = list_all (frame_of ''0:'') (fst p)"


text \<open>The number a string of decimal digits denotes.\<close>

fun digits_value :: "string \<Rightarrow> nat" where
  "digits_value [] = 0"
| "digits_value (c # cs) = digit_val c * 10 ^ length cs + digits_value cs"

section \<open>Sample inputs\<close>

definition sample_run :: "run_event upstream" where
  "sample_run =
     \<lparr>events =
        [MessageDelta (Some [TextBlock (Some ''The''), OtherBlock]),
         OtherEvent,
         MessageDelta (Some [TextBlock (Some '' answer is 42.'')]),
         RunCompleted (Some \<lparr>prompt_tokens = Some 10, completion_tokens = Some 5\<rparr>)],
      failure = None\<rparr>"

definition sample_completion :: "completion_chunk upstream" where
  "sample_completion =
     \<lparr>events =
        [\<lparr>delta_content = Some ''The answer'', chunk_usage = None\<rparr>,
         \<lparr>delta_content = Some '' is 42.'', chunk_usage = None\<rparr>,
         \<lparr>delta_content = None,
          chunk_usage = Some \<lparr>prompt_tokens = Some 10, completion_tokens = Some 5\<rparr>\<rparr>],
      failure = None\<rparr>"

definition sample_history :: "message list" where
  "sample_history =
     [\<lparr>role = ''user'', content = ''What is X?''\<rparr>,
      \<lparr>role = ''assistant'', content = ''The documents do not say.''\<rparr>,
      \<lparr>role = ''user'', content = ''And Y?''\<rparr>]"

text \<open>A vendor with no documents whose streams carry text and never report usage.\<close>

definition silent_vendor :: vendor where
  "silent_vendor =
     \<lparr>listFiles = Inr None,
      sendMessageStream =
        Inr \<lparr>events = [\<lparr>chunk_text = ''I could not find that.'', usageMetadata = None\<rparr>],
             failure = None\<rparr>,
      threads_create = Inr ''thread_1'',
      messages_create = Inr (),
      runs_stream = \<lparr>events = [MessageDelta (Some [TextBlock (Some ''Hello'')])], failure = None\<rparr>,
      completions_create =
        Inr \<lparr>events = [\<lparr>delta_content = Some ''Hello'', chunk_usage = None\<rparr>], failure = None\<rparr>\<rparr>"

text \<open>The same vendor when its document listing is unreachable.\<close>

definition unlisted_vendor :: vendor where
  "unlisted_vendor = silent_vendor\<lparr>listFiles := Inl (Error ''fetch failed'')\<rparr>"

text \<open>The request of the end-to-end scenario, and the same request without a credential.\<close>

definition scenario_request :: chat_request where
  "scenario_request =
     \<lparr>messages = [\<lparr>role = ''user'', content = ''What is X?''\<rparr>],
      apiKey = Some ''k'', model = None, provider = Some ''gemini'',
      assistantId = None, threadId = None\<rparr>"

definition anonymous_request :: chat_request where
  "anonymous_request = scenario_request\<lparr>apiKey := None\<rparr>"

text \<open>An account that holds nothing and whose endpoints all answer.\<close>

definition fresh_account :: openai where
  "fresh_account =
     \<lparr>assistants = [], vector_stores = [], minted = 0, failing = (\<lambda>ep. False), journal = []\<rparr>"

text \<open>
  An upload whose attachment is reported \<open>in_progress\<close> by the first three retrievals and
  \<open>failed\<close> afterwards, and one that is \<open>completed\<close> at the second retrieval.
\<close>

definition failing_ingest :: ingest_vendor where
  "failing_ingest =
     \<lparr>files_create = (\<lambda>buf name mime. Inr ''file_1''),
      vs_files_create = (\<lambda>vs file. Inr (''vsf_1'', ''in_progress'')),
      vs_files_retrieve = (\<lambda>vs vsf n. Inr (if n < 3 then ''in_progress'' else ''failed''))\<rparr>"

definition completing_ingest :: ingest_vendor where
  "completing_ingest =
     \<lparr>files_create = (\<lambda>buf name mime. Inr ''file_1''),
      vs_files_create = (\<lambda>vs file. Inr (''vsf_1'', ''in_progress'')),
      vs_files_retrieve = (\<lambda>vs vsf n. Inr (if n < 1 then ''in_progress'' else ''completed''))\<rparr>"

section \<open>Frames are single lines\<close>

lemma digit_char_not_newline: "digit_char n \<noteq> newline"
proof -
  have "n mod 16 < length ''0123456789abcdef''" by simp
  then have "digit_char n \<in> set ''0123456789abcdef''"
    unfolding digit_char_def by (rule nth_mem)
  then show ?thesis by (auto simp: newline_def)
qed

lemma dec_nat_no_newline: "newline \<notin> set (dec_nat n)"
proof (induction n rule: dec_nat.induct)
  case (1 n)
  then show ?case
    using digit_char_not_newline[of n] digit_char_not_newline[of "n mod 10"]
    by (subst dec_nat.simps) auto
qed

lemma dec_int_no_newline: "newline \<notin> set (dec_int i)"
  using dec_nat_no_newline by (auto simp: dec_int_def newline_def)

lemma escape_char_no_newline: "newline \<notin> set (escape_char c)"
  using digit_char_not_newline[of "of_char c div 16"] digit_char_not_newline[of "of_char c mod 16"]
  by (auto simp: escape_char_def newline_def dq_def bslash_def)

lemma quote_json_no_newline: "newline \<notin> set (quote_json s)"
  using escape_char_no_newline by (auto simp: quote_json_def newline_def dq_def)

lemma text_frame_is_frame: "frame_of ''0:'' (text_frame t)"
  using quote_json_no_newline[of t]
  by (simp add: frame_of_def text_frame_def starts_with_def butlast_append newline_def)

lemma usage_frame_is_frame: "frame_of ''2:'' (usage_frame i j m th)"
  using quote_json_no_newline[of m] dec_int_no_newline[of i] dec_int_no_newline[of j]
    quote_json_no_newline[of "''usage''"] quote_json_no_newline[of "''inputTokens''"]
    quote_json_no_newline[of "''outputTokens''"] quote_json_no_newline[of "''model''"]
    quote_json_no_newline[of "''threadId''"] quote_json_no_newline[of "the th"]
  by (cases th)
     (simp_all add: frame_of_def usage_frame_def usage_object_def starts_with_def
        butlast_append newline_def)

lemma split_lines_line:
  "newline \<notin> set l \<Longrightarrow> split_lines (l @ newline # rest) = l # split_lines rest"
  by (induction l) auto

lemma split_lines_nonempty: "split_lines s \<noteq> []"
  by (induction s) (auto split: list.splits)

lemma frame_split:
  assumes "frame_of marker c"
  shows "split_lines (c @ rest) = butlast c # split_lines rest"
proof -
  from assms have "c = butlast c @ [newline]" and "newline \<notin> set (butlast c)"
    by (auto simp: frame_of_def) (metis append_butlast_last_id)
  then show ?thesis
    using split_lines_line[of "butlast c" rest]
    by (metis append.assoc append_Cons append_Nil)
qed

lemma frames_split:
  "list_all (frame_of marker) out \<Longrightarrow>
     split_lines (concat out @ rest) = map butlast out @ split_lines rest"
  by (induction out) (auto simp: frame_split)

lemma frame_line_marker:
  assumes "frame_of [a, b] c" and "b \<noteq> newline"
  shows "starts_with [a, b] (butlast c)"
proof -
  from assms(1) obtain r where c: "c = a # b # r"
    by (cases c; cases "tl c") (auto simp: frame_of_def starts_with_def)
  with assms have "r \<noteq> []" by (auto simp: frame_of_def)
  with c show ?thesis by (simp add: starts_with_def)
qed

lemma frames_well_framed:
  assumes "list_all (frame_of ''0:'') out" and "frame_of ''2:'' u"
  shows "well_framed (concat (out @ [u]))"
proof -
  have "split_lines (concat out @ u @ []) = map butlast out @ split_lines (u @ [])"
    using assms(1) by (rule frames_split)
  moreover have "split_lines (u @ []) = [butlast u, []]"
    using frame_split[OF assms(2), of "[]"] by simp
  ultimately have "rev (split_lines (concat (out @ [u]))) = [] # butlast u # rev (map butlast out)"
    by simp
  moreover have "starts_with ''2:'' (butlast u)"
    using assms(2) by (rule frame_line_marker) (simp add: newline_def)
  moreover have "list_all (starts_with ''0:'') (rev (map butlast out))"
    using assms(1) frame_line_marker[of "CHR ''0''" "CHR '':''"]
    by (auto simp: list_all_iff newline_def)
  ultimately show ?thesis by (simp add: well_framed_def)
qed

section \<open>The forwarding loops\<close>

lemma foldl_invariant:
  assumes "\<And>p e. P p \<Longrightarrow> P (step p e)" and "P p"
  shows "P (foldl step p evs)"
  using assms(2) by (induction evs arbitrary: p) (auto intro: assms(1))


lemma gemini_step_frames: "text_frames_only p \<Longrightarrow> text_frames_only (gemini_step p e)"
  by (cases p) (auto simp: text_frames_only_def Let_def text_frame_is_frame split: option.splits)

lemma block_frames_frames: "list_all (frame_of ''0:'') (block_frames b)"
  by (cases b rule: block_frames.cases) (auto simp: text_frame_is_frame)

lemma run_step_frames: "text_frames_only p \<Longrightarrow> text_frames_only (run_step p e)"
  by (cases "(p, e)" rule: run_step.cases)
     (auto simp: text_frames_only_def list_all_iff
           dest: block_frames_frames[unfolded list_all_iff, rule_format])

lemma completion_step_frames: "text_frames_only p \<Longrightarrow> text_frames_only (completion_step p e)"
  by (cases p) (auto simp: text_frames_only_def Let_def text_frame_is_frame split: option.splits)

lemma gemini_pump_frames: "text_frames_only (foldl gemini_step ([], 0, 0) evs)"
  by (rule foldl_invariant[where P = text_frames_only], erule gemini_step_frames)
     (simp add: text_frames_only_def)

lemma run_pump_frames: "text_frames_only (foldl run_step ([], 0, 0) evs)"
  by (rule foldl_invariant[where P = text_frames_only], erule run_step_frames)
     (simp add: text_frames_only_def)

lemma completion_pump_frames: "text_frames_only (foldl completion_step ([], 0, 0) evs)"
  by (rule foldl_invariant[where P = text_frames_only], erule completion_step_frames)
     (simp add: text_frames_only_def)

lemma finish_stream_completed:
  assumes "text_frames_only p"
  shows "snd (finish_stream p m th None) = Closed"
    and "well_framed (concat (fst (finish_stream p m th None)))"
    and "list_all (frame_of ''0:'') (butlast (fst (finish_stream p m th None)))"
    and "last (fst (finish_stream p m th None)) = usage_frame (fst (snd p)) (snd (snd p)) m th"
  using assms frames_well_framed[of "fst p" "usage_frame (fst (snd p)) (snd (snd p)) m th"]
  by (cases p; simp add: finish_stream_def text_frames_only_def usage_frame_is_frame)+

lemma finish_stream_end: "snd (finish_stream p m th f) = Closed \<longleftrightarrow> f = None"
  by (cases p) (auto simp: finish_stream_def split: option.splits)











section \<open>Which stream a response carries\<close>

lemma handleGemini_stream:
  assumes "handleGemini v msgs key m = (calls, Inr resp)"
  shows "\<exists>up. sendMessageStream v = Inr up \<and> resp = stream_response (gemini_stream m up)"
  using assms by (auto simp: handleGemini_def Let_def split: sum.splits if_splits)

lemma handleOpenAISimple_stream:
  assumes "handleOpenAISimple v msgs m = (calls, Inr resp)"
  shows "\<exists>up. completions_create v = Inr up \<and> resp = stream_response (completion_stream m up)"
  using assms by (auto simp: handleOpenAISimple_def Let_def split: sum.splits)

lemma handleOpenAI_stream:
  assumes "handleOpenAI v msgs key m a t = (calls, Inr resp)"
  shows "(\<exists>up. completions_create v = Inr up \<and> resp = stream_response (completion_stream m up))
       \<or> (\<exists>th. resp = stream_response (run_stream m th (runs_stream v)))"
proof (cases "given a")
  case False
  then have "handleOpenAI v msgs key m a t = handleOpenAISimple v msgs m"
    by (auto simp: handleOpenAI_def given_def split: option.splits)
  with assms handleOpenAISimple_stream show ?thesis by metis
next
  case True
  then obtain x where a: "a = Some x" "x \<noteq> []"
    by (auto simp: given_def split: option.splits)
  have "\<exists>th. resp = stream_response (run_stream m th (runs_stream v))"
    using assms a
    by (auto simp: handleOpenAI_def Let_def split: sum.splits if_splits option.splits; blast)
  then show ?thesis ..
qed

lemma POST_stream_cases:
  assumes "POST v (Inr r) = (calls, Inr resp)" and "body resp = StreamBody chunks ending"
  shows "(\<exists>up. sendMessageStream v = Inr up
              \<and> gemini_stream (effectiveModel r) up = (chunks, ending))
       \<or> (\<exists>t. run_stream (effectiveModel r) t (runs_stream v) = (chunks, ending))
       \<or> (\<exists>up. completions_create v = Inr up
              \<and> completion_stream (effectiveModel r) up = (chunks, ending))"
proof (cases "effectiveApiKey r = []")
  case True
  with assms show ?thesis by (auto simp: POST_def json_response_def)
next
  case key: False
  have sr: "body (stream_response s) = StreamBody chunks ending \<Longrightarrow> s = (chunks, ending)" for s
    by (cases s) (simp add: stream_response_def)
  show ?thesis
  proof (cases "effectiveProvider r = ''openai''")
    case False
    with key assms(1)
    have "handleGemini v (messages r) (effectiveApiKey r) (effectiveModel r) = (calls, Inr resp)"
      by (simp add: POST_def)
    from handleGemini_stream[OF this] assms(2) sr show ?thesis by blast
  next
    case True
    with key assms(1)
    have "handleOpenAI v (messages r) (effectiveApiKey r) (effectiveModel r)
            (assistantId r) (threadId r) = (calls, Inr resp)"
      by (simp add: POST_def)
    from handleOpenAI_stream[OF this] assms(2) sr show ?thesis by blast
  qed
qed

lemma closed_stream_well_framed:
  "gemini_stream m g = (chunks, Closed) \<Longrightarrow> well_framed (concat chunks)"
  "run_stream m t r = (chunks, Closed) \<Longrightarrow> well_framed (concat chunks)"
  "completion_stream m c = (chunks, Closed) \<Longrightarrow> well_framed (concat chunks)"
proof -
  show "gemini_stream m g = (chunks, Closed) \<Longrightarrow> well_framed (concat chunks)"
    using finish_stream_completed(2)[OF gemini_pump_frames[of "events g"], of m None]
      finish_stream_end[of "foldl gemini_step ([], 0, 0) (events g)" m None "failure g"]
    by (auto simp: gemini_stream_def)
  show "run_stream m t r = (chunks, Closed) \<Longrightarrow> well_framed (concat chunks)"
    using finish_stream_completed(2)[OF run_pump_frames[of "events r"], of m "Some t"]
      finish_stream_end[of "foldl run_step ([], 0, 0) (events r)" m "Some t" "failure r"]
    by (auto simp: run_stream_def)
  show "completion_stream m c = (chunks, Closed) \<Longrightarrow> well_framed (concat chunks)"
    using finish_stream_completed(2)[OF completion_pump_frames[of "events c"], of m None]
      finish_stream_end[of "foldl completion_step ([], 0, 0) (events c)" m None "failure c"]
    by (auto simp: completion_stream_def)
qed

lemma POST_closed_well_framed:
  assumes "POST v (Inr q) = (calls, Inr resp)" and "body resp = StreamBody chunks Closed"
  shows "well_framed (concat chunks)"
  using POST_stream_cases[OF assms] closed_stream_well_framed by blast

section \<open>The decoder across two reads\<close>

lemma property3_frames_eq:
  "property3_frames =
     map text_frame [''The'', '' '', ''answer'', '' is'', '' 42.''] @ [usage_frame 10 5 ''m'' None]"
  by (simp add: property3_frames_def gemini_stream_def property3_upstream_def finish_stream_def
        or0_def)

lemma property3_whole: "decode_stream [property3_bytes] = property3_decoded"
  by code_simp

lemma property3_per_frame: "decode_stream property3_frames = property3_decoded"
  by code_simp

lemma property3_length: "length property3_bytes = 102"
  by code_simp

lemma process_line_empty: "process_line d [] = d"
  by (simp add: process_line_def starts_with_def)

lemma split_lines_append: "split_lines (x @ newline # y) = split_lines x @ split_lines y"
proof (induction x)
  case Nil
  then show ?case by simp
next
  case (Cons c x)
  then show ?case
    using split_lines_nonempty[of x] by (cases "split_lines x") auto
qed

lemma chunk_before_terminator:
  "process_chunk (process_chunk d x) (newline # y) = process_chunk d (x @ newline # y)"
  by (simp add: process_chunk_def split_lines_append process_line_empty)

lemma chunk_after_terminator:
  "process_chunk (process_chunk d (x @ [newline])) y = process_chunk d (x @ newline # y)"
  using split_lines_append[of x "[]"]
  by (simp add: process_chunk_def split_lines_append process_line_empty)

lemma chunk_empty: "process_chunk d [] = d"
  by (simp add: process_chunk_def process_line_empty)

lemma two_reads_on_boundary:
  assumes "on_line_boundary bytes k"
  shows "decode_stream (two_reads bytes k) = decode_stream [bytes]"
proof -
  consider (start) "k = 0" | (finish) "length bytes \<le> k"
    | (after) "0 < k" "k < length bytes" "bytes ! (k - 1) = newline"
    | (before) "k < length bytes" "bytes ! k = newline"
    using assms unfolding on_line_boundary_def by linarith
  then show ?thesis
  proof cases
    case start
    then show ?thesis by (simp add: two_reads_def decode_stream_def chunk_empty)
  next
    case finish
    then show ?thesis by (simp add: two_reads_def decode_stream_def chunk_empty)
  next
    case after
    then have "take k bytes = take (k - 1) bytes @ [newline]"
      using take_Suc_conv_app_nth[of "k - 1" bytes] by simp
    moreover have "bytes = take (k - 1) bytes @ newline # drop k bytes"
      using calculation append_take_drop_id[of k bytes] by simp
    ultimately show ?thesis
      using chunk_after_terminator[of decoder_init "take (k - 1) bytes" "drop k bytes"]
      by (simp add: two_reads_def decode_stream_def)
  next
    case before
    then have d: "drop k bytes = newline # drop (Suc k) bytes"
      using Cons_nth_drop_Suc[of k bytes] by simp
    then have "bytes = take k bytes @ newline # drop (Suc k) bytes"
      using append_take_drop_id[of k bytes] by simp
    with d show ?thesis
      using chunk_before_terminator[of decoder_init "take k bytes" "drop (Suc k) bytes"]
      by (simp add: two_reads_def decode_stream_def)
  qed
qed

lemma property3_offsets:
  "list_all
     (\<lambda>k. (decode_stream (two_reads property3_bytes k) = property3_decoded)
           = on_line_boundary property3_bytes k)
     [0..<103]"
  by code_simp

section \<open>The vendor account\<close>

lemma create_pair_available:
  assumes "\<not> failing v VectorStoresCreate" and "\<not> failing v AssistantsCreate"
  shows "create_assistant_and_store v =
    (Inr (''asst_'' @ dec_nat (Suc (minted v)), ''vs_'' @ dec_nat (minted v)),
     v\<lparr>journal := journal v @
          [CreateVectorStore ''Editorial Knowledge Base'',
           CreateAssistant ASSISTANT_NAME ASSISTANT_INSTRUCTIONS ''gpt-4o'' [''file_search'']
             [''vs_'' @ dec_nat (minted v)]],
       vector_stores :=
         (''vs_'' @ dec_nat (minted v), ''Editorial Knowledge Base'') # vector_stores v,
       assistants :=
         (''asst_'' @ dec_nat (Suc (minted v)),
          \<lparr>assistant_id = ''asst_'' @ dec_nat (Suc (minted v)),
           assistant_name = ASSISTANT_NAME, instructions = ASSISTANT_INSTRUCTIONS,
           assistant_model = ''gpt-4o'', tools = [''file_search''],
           vector_store_ids = Some [''vs_'' @ dec_nat (minted v)]\<rparr>) # assistants v,
       minted := Suc (Suc (minted v))\<rparr>)"
  using assms
  by (simp add: create_assistant_and_store_def beta_vectorStores_create_def
        beta_assistants_create_def Let_def)

lemma retrieve_state:
  "snd (beta_assistants_retrieve h v) = v\<lparr>journal := journal v @ [Retrieve h]\<rparr>"
  by (simp add: beta_assistants_retrieve_def Let_def split: option.splits)

section \<open>The poll loop\<close>

lemma poll_settles:
  "settles (status_seq st (\<lambda>i. retr (k + i))) n s \<Longrightarrow> poll retr k st = Some (Inr s)"
proof (induction n arbitrary: k st)
  case 0
  then show ?case by (subst poll.simps) (simp add: settles_def status_seq_def)
next
  case (Suc n)
  from Suc.prems have st: "st = ''in_progress''"
    by (auto simp: settles_def status_seq_def dest: bspec[where x = 0])
  from Suc.prems obtain st' where r: "retr k = Inr st'"
    by (cases n) (auto simp: settles_def status_seq_def dest: bspec[where x = 1])
  have "settles (status_seq st' (\<lambda>i. retr (Suc k + i))) n s"
    unfolding settles_def
  proof (intro conjI ballI)
    fix i assume "i \<in> {..<n}"
    then have "Suc i \<in> {..<Suc n}" by simp
    with Suc.prems have "status_seq st (\<lambda>i. retr (k + i)) (Suc i) = Inr ''in_progress''"
      unfolding settles_def by blast
    then show "status_seq st' (\<lambda>i. retr (Suc k + i)) i = Inr ''in_progress''"
      using r by (cases i) (simp_all add: status_seq_def)
  next
    from Suc.prems have "status_seq st (\<lambda>i. retr (k + i)) (Suc n) = Inr s"
      by (simp add: settles_def)
    then show "status_seq st' (\<lambda>i. retr (Suc k + i)) n = Inr s"
      using r by (cases n) (simp_all add: status_seq_def)
  next
    from Suc.prems show "s \<noteq> ''in_progress''" by (simp add: settles_def)
  qed
  from Suc.IH[OF this] st r show ?case by (subst poll.simps) simp
qed

lemma settles_step:
  assumes "retr k = Inr st'" and "settles (status_seq st' (\<lambda>i. retr (Suc k + i))) n s"
  shows "settles (status_seq ''in_progress'' (\<lambda>i. retr (k + i))) (Suc n) s"
  unfolding settles_def
proof (intro conjI ballI)
  fix i assume i: "i \<in> {..<Suc n}"
  show "status_seq ''in_progress'' (\<lambda>i. retr (k + i)) i = Inr ''in_progress''"
  proof (cases i)
    case 0
    then show ?thesis by (simp add: status_seq_def)
  next
    case (Suc j)
    with i have "j \<in> {..<n}" by simp
    with assms(2) have "status_seq st' (\<lambda>i. retr (Suc k + i)) j = Inr ''in_progress''"
      unfolding settles_def by blast
    with Suc assms(1) show ?thesis by (cases j) (simp_all add: status_seq_def)
  qed
next
  from assms(2) have "status_seq st' (\<lambda>i. retr (Suc k + i)) n = Inr s"
    by (simp add: settles_def)
  with assms(1) show "status_seq ''in_progress'' (\<lambda>i. retr (k + i)) (Suc n) = Inr s"
    by (cases n) (simp_all add: status_seq_def)
next
  from assms(2) show "s \<noteq> ''in_progress''" by (simp add: settles_def)
qed

lemma poll_returns_aux:
  assumes "poll retr k st = Some y"
  shows "\<forall>s. y = Inr s \<longrightarrow> (\<exists>n. settles (status_seq st (\<lambda>i. retr (k + i))) n s)"
proof (rule poll.raw_induct
    [where P = "\<lambda>retr k st y. \<forall>s. y = Inr s \<longrightarrow>
                  (\<exists>n. settles (status_seq st (\<lambda>i. retr (k + i))) n s)",
     OF _ assms])
  fix poll' :: "(nat \<Rightarrow> error + string) \<Rightarrow> nat \<Rightarrow> string \<Rightarrow> (error + string) option"
    and retr k st y
  assume IH: "\<And>r j t z. poll' r j t = Some z \<Longrightarrow>
                \<forall>s. z = Inr s \<longrightarrow> (\<exists>n. settles (status_seq t (\<lambda>i. r (j + i))) n s)"
    and body: "(if st = ''in_progress''
                then case retr k of Inl e \<Rightarrow> Some (Inl e)
                     | Inr updated \<Rightarrow> poll' retr (Suc k) updated
                else Some (Inr st)) = Some y"
  show "\<forall>s. y = Inr s \<longrightarrow> (\<exists>n. settles (status_seq st (\<lambda>i. retr (k + i))) n s)"
  proof (intro allI impI)
    fix s assume y: "y = Inr s"
    show "\<exists>n. settles (status_seq st (\<lambda>i. retr (k + i))) n s"
    proof (cases "st = ''in_progress''")
      case False
      with body y have "settles (status_seq st (\<lambda>i. retr (k + i))) 0 s"
        by (simp add: settles_def status_seq_def)
      then show ?thesis ..
    next
      case True
      with body y obtain st' where r: "retr k = Inr st'"
        and p: "poll' retr (Suc k) st' = Some y"
        by (auto split: sum.splits)
      from IH[OF p] y obtain n where "settles (status_seq st' (\<lambda>i. retr (Suc k + i))) n s"
        by blast
      from settles_step[OF r this] True show ?thesis by blast
    qed
  qed
qed

lemma poll_returns:
  "poll retr k st = Some (Inr s) \<Longrightarrow> \<exists>n. settles (status_seq st (\<lambda>i. retr (k + i))) n s"
  using poll_returns_aux by blast

section \<open>Decimal identifiers are distinct\<close>

lemma digit_val_digit_char: "d < 10 \<Longrightarrow> digit_val (digit_char d) = d"
proof -
  have "\<forall>k \<in> set [0..<10]. digit_val (digit_char k) = k" by code_simp
  moreover assume "d < 10"
  ultimately show ?thesis by simp
qed

lemma digits_value_snoc: "digits_value (xs @ [c]) = digits_value xs * 10 + digit_val c"
  by (induction xs) (simp_all add: algebra_simps)

lemma digits_value_dec_nat: "digits_value (dec_nat n) = n"
proof (induction n rule: dec_nat.induct)
  case (1 n)
  show ?case
  proof (cases "n < 10")
    case True
    then show ?thesis by (subst dec_nat.simps) (simp add: digit_val_digit_char)
  next
    case False
    with 1 have "digits_value (dec_nat (n div 10)) = n div 10" by simp
    with False show ?thesis
      by (subst dec_nat.simps) (simp add: digits_value_snoc digit_val_digit_char)
  qed
qed

lemma dec_nat_inj: "dec_nat a = dec_nat b \<Longrightarrow> a = b"
  by (metis digits_value_dec_nat)

section \<open>Reading back what \<open>JSON.stringify\<close> wrote\<close>






















section \<open>Claims\<close>

text \<open>
  Claim C1 (frame round-trip). The Gemini adapter, fed the fragments \<open>The\<close>, a space,
  \<open>answer\<close>, \<open> is\<close>, \<open> 42.\<close> and the usage (10, 5) for the model \<open>m\<close>, enqueues one \<open>0:\<close>
  line per fragment and then one \<open>2:\<close> line. The client decoder, run over those chunks
  one by one or over their concatenation delivered as a single read, accumulates exactly
  the content \<open>The answer is 42.\<close>, calls the accounting callback once with (10, 5, m), and
  logs no parse error.
\<close>

theorem frame_round_trip:
  "property3_frames =
     map text_frame [''The'', '' '', ''answer'', '' is'', '' 42.''] @ [usage_frame 10 5 ''m'' None]
   \<and> decode_stream property3_frames =
       \<lparr>assistantContent = ''The answer is 42.'',
        tracked = [(Some (JNum 10), Some (JNum 5), Some (JStr ''m''))],
        logged = []\<rparr>
   \<and> decode_stream [concat property3_frames] =
       \<lparr>assistantContent = ''The answer is 42.'',
        tracked = [(Some (JNum 10), Some (JNum 5), Some (JStr ''m''))],
        logged = []\<rparr>"
  using property3_frames_eq property3_per_frame property3_whole
  by (simp add: property3_decoded_def property3_bytes_def)

text \<open>
  Claim C2 (split-frame robustness), as the code has it. The decoder keeps no partial
  line between two reads. When the encoded stream of property 3 is delivered in two
  pieces broken at offset \<open>k\<close>, the decoder reconstructs the content and the usage of the
  unbroken stream exactly when \<open>k\<close> lies on a line boundary: at the start or the end of
  the stream, or immediately before or after a line terminator. At every other offset
  the frame that contains the break is lost.
\<close>

theorem split_on_line_boundaries:
  "(decode_stream (two_reads property3_bytes k) = property3_decoded)
     = on_line_boundary property3_bytes k"
proof (cases "k < 103")
  case True
  then have "k \<in> set [0..<103]" by simp
  with property3_offsets show ?thesis
    unfolding list_all_iff by blast
next
  case False
  then have b: "on_line_boundary property3_bytes k"
    by (simp add: on_line_boundary_def property3_length)
  from two_reads_on_boundary[OF b] property3_whole b show ?thesis by simp
qed

theorem split_on_line_boundaries_witness:
  "on_line_boundary property3_bytes 8
   \<and> decode_stream (two_reads property3_bytes 8) = property3_decoded
   \<and> \<not> on_line_boundary property3_bytes 20
   \<and> decode_stream (two_reads property3_bytes 20) \<noteq> property3_decoded"
proof -
  have "on_line_boundary property3_bytes 8" by code_simp
  moreover have "\<not> on_line_boundary property3_bytes 20" by code_simp
  ultimately show ?thesis
    using split_on_line_boundaries[of 8] split_on_line_boundaries[of 20] by simp
qed

text \<open>
  The claim as stated fails: broken at offset 20, inside the frame of \<open>answer\<close>, the
  stream decodes to the content \<open>The  is 42.\<close>; broken at offset 60, inside the usage
  frame, no usage reaches the accounting callback.
\<close>

theorem split_mid_frame_counterexample:
  "assistantContent (decode_stream (two_reads property3_bytes 20)) = ''The  is 42.''
   \<and> tracked (decode_stream (two_reads property3_bytes 60)) = []"
  by code_simp

text \<open>
  Claim C3 (frame ordering). For each of the three adapters, when the upstream stream
  completes without an exception the outgoing stream is closed, and its bytes are zero
  or more \<open>0:\<close> lines followed by exactly one \<open>2:\<close> line and nothing after it. The same
  holds of every stream that the chat route returns and that is closed normally.
\<close>

theorem frame_ordering:
  "(failure g = None \<longrightarrow>
      snd (gemini_stream m g) = Closed \<and> well_framed (concat (fst (gemini_stream m g))))
   \<and> (failure r = None \<longrightarrow>
      snd (run_stream m t r) = Closed \<and> well_framed (concat (fst (run_stream m t r))))
   \<and> (failure c = None \<longrightarrow>
      snd (completion_stream m c) = Closed
      \<and> well_framed (concat (fst (completion_stream m c))))
   \<and> (POST v (Inr q) = (calls, Inr resp) \<and> body resp = StreamBody chunks Closed \<longrightarrow>
      well_framed (concat chunks))"
  using finish_stream_completed(1,2)[OF gemini_pump_frames]
    finish_stream_completed(1,2)[OF run_pump_frames]
    finish_stream_completed(1,2)[OF completion_pump_frames]
    POST_closed_well_framed[of v q calls resp chunks]
  by (simp add: gemini_stream_def run_stream_def completion_stream_def)

theorem frame_ordering_witness:
  "failure property3_upstream = None \<and> failure sample_run = None
   \<and> failure sample_completion = None
   \<and> snd (gemini_stream ''m'' property3_upstream) = Closed
   \<and> well_framed (concat (fst (gemini_stream ''m'' property3_upstream)))
   \<and> snd (run_stream ''m'' ''thread_1'' sample_run) = Closed
   \<and> well_framed (concat (fst (run_stream ''m'' ''thread_1'' sample_run)))
   \<and> snd (completion_stream ''m'' sample_completion) = Closed
   \<and> well_framed (concat (fst (completion_stream ''m'' sample_completion)))
   \<and> snd (POST silent_vendor (Inr scenario_request)) =
       Inr (stream_response
              ([text_frame ''I could not find that.'', usage_frame 0 0 ''gemini-2.5-flash'' None],
               Closed))
   \<and> well_framed
       (concat [text_frame ''I could not find that.'', usage_frame 0 0 ''gemini-2.5-flash'' None])"
proof -
  let ?chunks = "[text_frame ''I could not find that.'', usage_frame 0 0 ''gemini-2.5-flash'' None]"
  have p: "snd (POST silent_vendor (Inr scenario_request)) =
             Inr (stream_response (?chunks, Closed))"
    by (simp add: POST_def handleGemini_def Let_def effectiveApiKey_def effectiveProvider_def
          effectiveModel_def given_def silent_vendor_def scenario_request_def gemini_stream_def
          finish_stream_def)
  then have q: "POST silent_vendor (Inr scenario_request) =
                  (fst (POST silent_vendor (Inr scenario_request)),
                   Inr (stream_response (?chunks, Closed)))"
    by (metis prod.collapse)
  have b: "body (stream_response (?chunks, Closed)) = StreamBody ?chunks Closed"
    by (simp add: stream_response_def)
  have f: "failure property3_upstream = None" "failure sample_run = None"
    "failure sample_completion = None"
    by (simp_all add: property3_upstream_def sample_run_def sample_completion_def)
  from f p q b
    frame_ordering[where g = property3_upstream and r = sample_run
      and c = sample_completion and m = "''m''" and t = "''thread_1''"
      and v = silent_vendor and q = scenario_request
      and calls = "fst (POST silent_vendor (Inr scenario_request))"
      and resp = "stream_response (?chunks, Closed)" and chunks = ?chunks]
  show ?thesis by simp
qed

text \<open>
  Claim C4 (Gemini grounding), as the code has it. The listing call is awaited outside
  any \<open>try\<close> block. When it throws, the adapter rejects with that exception after the
  listing call alone: no model session is opened and nothing is streamed. When it
  succeeds and no listed document is active (or the answer has no \<open>files\<close> field), the
  adapter opens the session with the document-name list \<open>none\<close>, sends the newest message
  and streams the vendor's answer.
\<close>

theorem listing_failure_aborts:
  "(listFiles v = Inl e \<longrightarrow> handleGemini v msgs key m = ([ListFiles], Inl e))
   \<and> (listFiles v = Inr fl
        \<and> filter (\<lambda>f. state f = ''ACTIVE'') (case fl of None \<Rightarrow> [] | Some fs \<Rightarrow> fs) = []
        \<and> msgs \<noteq> [] \<and> sendMessageStream v = Inr up \<longrightarrow>
      handleGemini v msgs key m =
        ([ListFiles,
          SendMessageStream m (gemini_instruction ''none'')
            (chat_history (case fl of None \<Rightarrow> [] | Some fs \<Rightarrow> fs) msgs)
            (content (last msgs))],
         Inr (stream_response (gemini_stream m up))))"
  by (simp add: handleGemini_def Let_def fileNames_def)

theorem listing_failure_aborts_witness:
  "listFiles unlisted_vendor = Inl (Error ''fetch failed'')
   \<and> handleGemini unlisted_vendor sample_history ''k'' ''gemini-2.5-flash''
       = ([ListFiles], Inl (Error ''fetch failed''))
   \<and> listFiles silent_vendor = Inr None
   \<and> sample_history \<noteq> []
   \<and> fst (handleGemini silent_vendor sample_history ''k'' ''gemini-2.5-flash'')
       = [ListFiles,
          SendMessageStream ''gemini-2.5-flash'' (gemini_instruction ''none'')
            (chat_history [] sample_history) ''And Y?'']"
  using listing_failure_aborts[where v = unlisted_vendor and e = "Error ''fetch failed''"
      and msgs = sample_history and key = "''k''" and m = "''gemini-2.5-flash''"]
    listing_failure_aborts[where v = silent_vendor and fl = None
      and msgs = sample_history and key = "''k''" and m = "''gemini-2.5-flash''"
      and up = "\<lparr>events = [\<lparr>chunk_text = ''I could not find that.'', usageMetadata = None\<rparr>],
                failure = None\<rparr>"]
  by (simp add: unlisted_vendor_def silent_vendor_def sample_history_def)

text \<open>
  The claim as stated fails: with the listing unreachable, the adapter answers the
  scenario request with the listing's exception, having made no other vendor call.
\<close>

theorem listing_failure_counterexample:
  "handleGemini unlisted_vendor (messages scenario_request) ''k'' ''gemini-2.5-flash''
     = ([ListFiles], Inl (Error ''fetch failed''))"
  by (simp add: handleGemini_def unlisted_vendor_def silent_vendor_def)

text \<open>
  Claim C5 (idempotent resource creation), as the code has it. \<open>getOrCreateAssistant\<close>
  called without handles always creates: against a vendor whose endpoints all answer,
  two such calls return two different pairs, the vendor's next identifiers each time. A
  third call given the pair returned by the first call returns exactly that pair; the
  vendor receives one retrieval from it and nothing else, so that call creates no
  assistant and no vector store.
\<close>

theorem ensure_reuses_given_pair:
  assumes "\<forall>ep. \<not> failing v ep"
    and "getOrCreateAssistant None None v = (r1, v1)"
    and "getOrCreateAssistant None None v1 = (r2, v2)"
  shows "r1 = Inr (''asst_'' @ dec_nat (Suc (minted v)), ''vs_'' @ dec_nat (minted v))
       \<and> r2 = Inr (''asst_'' @ dec_nat (Suc (Suc (Suc (minted v)))),
                  ''vs_'' @ dec_nat (Suc (Suc (minted v))))
       \<and> r2 \<noteq> r1
       \<and> getOrCreateAssistant
            (Some (''asst_'' @ dec_nat (Suc (minted v)))) (Some (''vs_'' @ dec_nat (minted v))) v2 =
           (Inr (''asst_'' @ dec_nat (Suc (minted v)), ''vs_'' @ dec_nat (minted v)),
            v2\<lparr>journal := journal v2 @ [Retrieve (''asst_'' @ dec_nat (Suc (minted v)))]\<rparr>)"
proof -
  let ?a = "''asst_'' @ dec_nat (Suc (minted v))" and ?s = "''vs_'' @ dec_nat (minted v)"
  from assms(1) have av: "\<not> failing v VectorStoresCreate" "\<not> failing v AssistantsCreate"
    by simp_all
  from assms(2) create_pair_available[OF av]
  have r1: "r1 = Inr (?a, ?s)" and v1: "v1 = snd (create_assistant_and_store v)"
    by (simp_all add: getOrCreateAssistant_def given_def)
  have f1: "failing v1 = failing v" and a1: "map_of (assistants v1) ?a \<noteq> None"
    and id1: "\<forall>x. map_of (assistants v1) ?a = Some x \<longrightarrow> assistant_id x = ?a"
    and m1: "minted v1 = Suc (Suc (minted v))"
    unfolding v1 using create_pair_available[OF av] by simp_all
  from assms(1) f1 have av1: "\<not> failing v1 VectorStoresCreate" "\<not> failing v1 AssistantsCreate"
    by simp_all
  from assms(3) create_pair_available[OF av1]
  have r2: "r2 = Inr (''asst_'' @ dec_nat (Suc (minted v1)), ''vs_'' @ dec_nat (minted v1))"
    and v2: "v2 = snd (create_assistant_and_store v1)"
    by (simp_all add: getOrCreateAssistant_def given_def)
  have f2: "failing v2 = failing v"
    unfolding v2 using create_pair_available[OF av1] f1 by simp
  have "\<exists>x. map_of (assistants v2) ?a = Some x \<and> assistant_id x = ?a"
    unfolding v2 using create_pair_available[OF av1] a1 id1 by auto
  then obtain x where x: "map_of (assistants v2) ?a = Some x" "assistant_id x = ?a" by blast
  have third: "getOrCreateAssistant (Some ?a) (Some ?s) v2 =
          (Inr (?a, ?s), v2\<lparr>journal := journal v2 @ [Retrieve ?a]\<rparr>)"
    using x f2 assms(1)
    by (simp add: getOrCreateAssistant_def given_def beta_assistants_retrieve_def Let_def)
  have "dec_nat (Suc (Suc (minted v))) \<noteq> dec_nat (minted v)"
    using dec_nat_inj[of "Suc (Suc (minted v))" "minted v"] by auto
  with r1 r2 m1 have "r2 \<noteq> r1" by simp
  with r1 r2 m1 third show ?thesis by simp
qed

theorem ensure_reuses_given_pair_witness:
  "(\<forall>ep. \<not> failing fresh_account ep)
   \<and> fst (getOrCreateAssistant None None fresh_account) = Inr (''asst_1'', ''vs_0'')
   \<and> fst (getOrCreateAssistant (Some ''asst_1'') (Some ''vs_0'')
            (snd (getOrCreateAssistant None None
                    (snd (getOrCreateAssistant None None fresh_account)))))
       = Inr (''asst_1'', ''vs_0'')"
proof -
  have up: "\<forall>ep. \<not> failing fresh_account ep" by (simp add: fresh_account_def)
  have d: "dec_nat (Suc (minted fresh_account)) = ''1''" "dec_nat (minted fresh_account) = ''0''"
    by (simp_all add: fresh_account_def dec_nat.simps digit_char_def)
  from ensure_reuses_given_pair[OF up prod.collapse[symmetric] prod.collapse[symmetric]] up d
  show ?thesis by simp
qed

text \<open>
  The claim as stated fails: on an empty account the first call without handles returns
  the pair (\<open>asst_1\<close>, \<open>vs_0\<close>) and the second returns (\<open>asst_3\<close>, \<open>vs_2\<close>).
\<close>

theorem ensure_twice_counterexample:
  "fst (getOrCreateAssistant None None fresh_account) = Inr (''asst_1'', ''vs_0'')
   \<and> fst (getOrCreateAssistant None None (snd (getOrCreateAssistant None None fresh_account)))
       = Inr (''asst_3'', ''vs_2'')"
  by (simp add: getOrCreateAssistant_def given_def create_assistant_and_store_def
        beta_vectorStores_create_def beta_assistants_create_def Let_def fresh_account_def
        dec_nat.simps digit_char_def)

text \<open>
  Claim C6 (handle self-healing). When the vendor rejects the retrieval of the given
  assistant handle, and its two creation endpoints answer, \<open>getOrCreateAssistant\<close>
  succeeds: it returns the identifiers the vendor minted for a new vector store and a new
  assistant, and the vendor then holds that assistant with the \<open>file_search\<close> tool and
  the new store as its only vector store.
\<close>

theorem handle_self_healing:
  assumes "fst (beta_assistants_retrieve h v) = Inl e"
    and "\<not> failing v VectorStoresCreate" and "\<not> failing v AssistantsCreate"
  shows "\<exists>v'. getOrCreateAssistant (Some h) vs v =
                (Inr (''asst_'' @ dec_nat (Suc (minted v)), ''vs_'' @ dec_nat (minted v)), v')
          \<and> map_of (assistants v') (''asst_'' @ dec_nat (Suc (minted v))) =
              Some \<lparr>assistant_id = ''asst_'' @ dec_nat (Suc (minted v)),
                    assistant_name = ASSISTANT_NAME, instructions = ASSISTANT_INSTRUCTIONS,
                    assistant_model = ''gpt-4o'', tools = [''file_search''],
                    vector_store_ids = Some [''vs_'' @ dec_nat (minted v)]\<rparr>
          \<and> map_of (vector_stores v') (''vs_'' @ dec_nat (minted v))
              = Some ''Editorial Knowledge Base''"
proof (cases "h = []")
  case True
  then show ?thesis
    using create_pair_available[OF assms(2,3)] by (simp add: getOrCreateAssistant_def given_def)
next
  case False
  obtain r v1 where r: "beta_assistants_retrieve h v = (r, v1)"
    by (cases "beta_assistants_retrieve h v")
  with assms(1) have r1: "r = Inl e" by simp
  from r retrieve_state[of h v] have v1: "v1 = v\<lparr>journal := journal v @ [Retrieve h]\<rparr>"
    by simp
  have "\<not> failing v1 VectorStoresCreate" "\<not> failing v1 AssistantsCreate" "minted v1 = minted v"
    using assms(2,3) v1 by simp_all
  with create_pair_available[of v1] False r r1 show ?thesis
    by (simp add: getOrCreateAssistant_def given_def v1)
qed

theorem handle_self_healing_witness:
  "fst (beta_assistants_retrieve ''asst_deleted'' fresh_account)
     = Inl (Error ''404 No assistant found'')
   \<and> \<not> failing fresh_account VectorStoresCreate \<and> \<not> failing fresh_account AssistantsCreate
   \<and> (\<exists>v'. getOrCreateAssistant (Some ''asst_deleted'') None fresh_account =
             (Inr (''asst_'' @ dec_nat (Suc (minted fresh_account)),
                   ''vs_'' @ dec_nat (minted fresh_account)), v'))"
proof -
  have a: "fst (beta_assistants_retrieve ''asst_deleted'' fresh_account)
             = Inl (Error ''404 No assistant found'')"
    by (simp add: beta_assistants_retrieve_def fresh_account_def)
  have b: "\<not> failing fresh_account VectorStoresCreate"
    and c: "\<not> failing fresh_account AssistantsCreate"
    by (simp_all add: fresh_account_def)
  from handle_self_healing[OF a b c, of None] a b c show ?thesis by blast
qed

text \<open>
  Claim C7 (ingestion terminal states). \<open>uploadFileToVectorStore\<close> returns the two
  handles if and only if the upload and the attachment succeed and the statuses polled
  for the attachment leave \<open>in_progress\<close> for \<open>completed\<close>. When they leave \<open>in_progress\<close>
  for any other status, the call throws an error whose message is
  \<open>File processing failed: \<close> followed by that status, and returns no handle.
\<close>

theorem ingestion_terminal_states:
  "((\<exists>handles. uploadFileToVectorStore v vs buf name mime = Some (Inr handles)) \<longleftrightarrow>
      (\<exists>fid vsf st n. files_create v buf name mime = Inr fid
         \<and> vs_files_create v vs fid = Inr (vsf, st)
         \<and> settles (status_seq st (vs_files_retrieve v vs vsf)) n ''completed''))
   \<and> (files_create v buf name mime = Inr fid \<and> vs_files_create v vs fid = Inr (vsf, st)
        \<and> settles (status_seq st (vs_files_retrieve v vs vsf)) n s \<longrightarrow>
      uploadFileToVectorStore v vs buf name mime =
        Some (if s = ''completed'' then Inr (fid, vsf)
              else Inl (Error (''File processing failed: '' @ s))))"
proof (intro conjI impI iffI)
  assume "\<exists>handles. uploadFileToVectorStore v vs buf name mime = Some (Inr handles)"
  then obtain handles where u: "uploadFileToVectorStore v vs buf name mime = Some (Inr handles)" ..
  then obtain fid' where f: "files_create v buf name mime = Inr fid'"
    by (auto simp: uploadFileToVectorStore_def split: sum.splits)
  with u obtain vsf' st' where a: "vs_files_create v vs fid' = Inr (vsf', st')"
    by (auto simp: uploadFileToVectorStore_def split: sum.splits)
  with u f have p: "poll (vs_files_retrieve v vs vsf') 0 st' = Some (Inr ''completed'')"
    by (auto simp: uploadFileToVectorStore_def split: sum.splits option.splits if_splits)
  from poll_returns[OF p] obtain n'
    where "settles (status_seq st' (\<lambda>i. vs_files_retrieve v vs vsf' (0 + i))) n' ''completed''" ..
  with f a show "\<exists>fid vsf st n. files_create v buf name mime = Inr fid
         \<and> vs_files_create v vs fid = Inr (vsf, st)
         \<and> settles (status_seq st (vs_files_retrieve v vs vsf)) n ''completed''"
    by auto
next
  assume "\<exists>fid vsf st n. files_create v buf name mime = Inr fid
         \<and> vs_files_create v vs fid = Inr (vsf, st)
         \<and> settles (status_seq st (vs_files_retrieve v vs vsf)) n ''completed''"
  then obtain fid' vsf' st' n' where f: "files_create v buf name mime = Inr fid'"
    and a: "vs_files_create v vs fid' = Inr (vsf', st')"
    and s: "settles (status_seq st' (vs_files_retrieve v vs vsf')) n' ''completed''"
    by blast
  from s have "poll (vs_files_retrieve v vs vsf') 0 st' = Some (Inr ''completed'')"
    using poll_settles[of st' "vs_files_retrieve v vs vsf'" 0 n' "''completed''"] by simp
  with f a show "\<exists>handles. uploadFileToVectorStore v vs buf name mime = Some (Inr handles)"
    by (simp add: uploadFileToVectorStore_def)
next
  assume h: "files_create v buf name mime = Inr fid \<and> vs_files_create v vs fid = Inr (vsf, st)
        \<and> settles (status_seq st (vs_files_retrieve v vs vsf)) n s"
  then have "poll (vs_files_retrieve v vs vsf) 0 st = Some (Inr s)"
    using poll_settles[of st "vs_files_retrieve v vs vsf" 0 n s] by simp
  with h show "uploadFileToVectorStore v vs buf name mime =
        Some (if s = ''completed'' then Inr (fid, vsf)
              else Inl (Error (''File processing failed: '' @ s)))"
    by (simp add: uploadFileToVectorStore_def)
qed

theorem ingestion_terminal_states_witness:
  "settles (status_seq ''in_progress'' (vs_files_retrieve failing_ingest ''vs_0'' ''vsf_1''))
     4 ''failed''
   \<and> uploadFileToVectorStore failing_ingest ''vs_0'' ''bytes'' ''a.txt'' ''text/plain''
       = Some (Inl (Error ''File processing failed: failed''))
   \<and> settles (status_seq ''in_progress'' (vs_files_retrieve completing_ingest ''vs_0'' ''vsf_1''))
       2 ''completed''
   \<and> uploadFileToVectorStore completing_ingest ''vs_0'' ''bytes'' ''a.txt'' ''text/plain''
       = Some (Inr (''file_1'', ''vsf_1''))"
proof -
  have f: "settles (status_seq ''in_progress''
             (vs_files_retrieve failing_ingest ''vs_0'' ''vsf_1'')) 4 ''failed''"
    by (auto simp: settles_def status_seq_def failing_ingest_def split: nat.splits)
  have c: "settles (status_seq ''in_progress''
             (vs_files_retrieve completing_ingest ''vs_0'' ''vsf_1'')) 2 ''completed''"
    by (auto simp: settles_def status_seq_def completing_ingest_def split: nat.splits)
  from f c
    ingestion_terminal_states[where v = failing_ingest and vs = "''vs_0''" and buf = "''bytes''"
      and name = "''a.txt''" and mime = "''text/plain''" and fid = "''file_1''"
      and vsf = "''vsf_1''" and st = "''in_progress''" and n = 4 and s = "''failed''"]
    ingestion_terminal_states[where v = completing_ingest and vs = "''vs_0''"
      and buf = "''bytes''" and name = "''a.txt''" and mime = "''text/plain''"
      and fid = "''file_1''" and vsf = "''vsf_1''" and st = "''in_progress''" and n = 2
      and s = "''completed''"]
  show ?thesis by (simp add: failing_ingest_def completing_ingest_def)
qed

text \<open>
  Claim C8 (thread reuse). Given an assistant handle, an existing thread handle and a
  non-empty history, \<open>handleOpenAI\<close> issues exactly one \<open>messages.create\<close>, on that thread,
  carrying the content of the last message of the history; the only other vendor call it
  makes is the run on the same thread, and it creates no thread. The library generator
  \<open>streamAssistantResponse\<close> likewise appends the one message it is given.
\<close>

theorem thread_reuse:
  assumes "a \<noteq> []" and "t \<noteq> []" and "msgs \<noteq> []"
  shows "fst (handleOpenAI v msgs key m (Some a) (Some t)) =
           MessagesCreate t ''user'' (content (last msgs))
           # (case messages_create v of Inl e \<Rightarrow> [] | Inr u \<Rightarrow> [RunsStream t a])
         \<and> fst (streamAssistantResponse v a t userMessage) =
           MessagesCreate t ''user'' userMessage
           # (case messages_create v of Inl e \<Rightarrow> [] | Inr u \<Rightarrow> [RunsStream t a])"
  using assms
  by (simp add: handleOpenAI_def streamAssistantResponse_def given_def Let_def split: sum.splits)

theorem thread_reuse_witness:
  "''asst_1'' \<noteq> [] \<and> ''thread_1'' \<noteq> [] \<and> sample_history \<noteq> []
   \<and> fst (handleOpenAI silent_vendor sample_history ''k'' ''gpt-4o-mini''
            (Some ''asst_1'') (Some ''thread_1''))
       = [MessagesCreate ''thread_1'' ''user'' ''And Y?'', RunsStream ''thread_1'' ''asst_1'']"
  using thread_reuse[where a = "''asst_1''" and t = "''thread_1''" and msgs = sample_history
      and v = silent_vendor and key = "''k''" and m = "''gpt-4o-mini''"]
  by (simp add: sample_history_def silent_vendor_def)

text \<open>
  Claim C9 (missing credential). A request whose credential is absent or empty is
  answered by the dispatcher with status 400 and the JSON body \<open>{error: message}\<close>, and
  no vendor call is made: no adapter runs and no stream is opened.
\<close>

theorem missing_credential_rejected:
  assumes "apiKey r = None \<or> apiKey r = Some []"
  shows "POST v (Inr r) =
           ([], Inr (json_response 400
                      (''No ''
                       @ (if effectiveProvider r = ''openai'' then ''OpenAI'' else ''Gemini'')
                       @ '' API key configured. Please add one in Settings.'')))"
  using assms by (auto simp: POST_def effectiveApiKey_def)

theorem missing_credential_rejected_witness:
  "(apiKey anonymous_request = None \<or> apiKey anonymous_request = Some [])
   \<and> POST silent_vendor (Inr anonymous_request) =
       ([], Inr (json_response 400 ''No Gemini API key configured. Please add one in Settings.''))"
proof -
  have a: "apiKey anonymous_request = None \<or> apiKey anonymous_request = Some []"
    by (simp add: anonymous_request_def scenario_request_def)
  from missing_credential_rejected[OF a, of silent_vendor] a show ?thesis
    by (simp add: effectiveProvider_def anonymous_request_def scenario_request_def)
qed



end
